theory Spec2Isabelle
  imports Main
begin

section \<open>Persisted entities (mslib/mscolab/models.py)\<close>

text \<open>
  The rows of the relational tables, with the columns the socket handlers read or
  write. Integer columns are Python/SQL integers (\<open>int\<close>), text columns are strings,
  a nullable column is an \<open>option\<close>.
\<close>

type_synonym token = string
type_synonym sid = string

record user =
  user_id :: int
  username :: string

record permission =
  perm_op_id :: int
  perm_u_id :: int
  access_level :: string

text \<open>
  Modelled from the spec: the module mslib.mscolab.message_type is imported by models.py
  but is not among the sources. The spec gives a message the types
  text, system, image and document; the handlers name \<open>MessageType.TEXT\<close> and
  \<open>MessageType.SYSTEM_MESSAGE\<close>.
\<close>

datatype MessageType = TEXT | SYSTEM_MESSAGE | IMAGE | DOCUMENT

record message =
  msg_id :: int
  msg_op_id :: int
  msg_u_id :: int
  msg_text :: string
  msg_type :: MessageType
  msg_reply_id :: "int option"
  msg_created_at :: string

record change =
  chg_id :: int
  chg_op_id :: int
  chg_u_id :: int
  chg_commit_hash :: string
  chg_version_name :: "string option"
  chg_comment :: "string option"

text \<open>
  The persisted store as the handlers see it: the four tables, the document blob of
  every operation, and the collaborators the code reaches through libraries:
  \<open>decode_token\<close> is the outcome of \<open>jwt.decode\<close> under the configured secret
  (\<open>None\<close>: the call raised; \<open>Some None\<close>: a payload without an id;
  \<open>Some (Some i)\<close>: a payload with id \<open>i\<close>), \<open>available\<close> says whether the
  persistence layer can be written, \<open>now\<close> is the timestamp a new row receives and
  \<open>hash_blob\<close> the version hash of a document content.
\<close>

record store =
  users :: "user list"
  permissions :: "permission list"
  messages :: "message list"
  changes :: "change list"
  documents :: "int \<Rightarrow> string option"
  available :: bool
  now :: string
  hash_blob :: "string \<Rightarrow> string"
  decode_token :: "token \<Rightarrow> int option option"

datatype error = AttributeError | StoreFailure

text \<open>
  \<open>User.verify_auth_token\<close>: a token that does not decode gives \<open>None\<close>; otherwise
  the first user row with the decoded id, if any.
\<close>

definition verify_auth_token :: "store \<Rightarrow> token \<Rightarrow> user option" where
  "verify_auth_token st tok =
     (case decode_token st tok of
        None \<Rightarrow> None
      | Some None \<Rightarrow> None
      | Some (Some i) \<Rightarrow> find (\<lambda>u. user_id u = i) (users st))"

section \<open>Authorization checks (mslib/mscolab/sockets_manager.py)\<close>

text \<open>\<open>Permission.query.filter_by(u_id=u_id, op_id=op_id).first()\<close>\<close>

definition first_permission :: "store \<Rightarrow> int \<Rightarrow> int \<Rightarrow> permission option" where
  "first_permission st uid op =
     find (\<lambda>p. perm_u_id p = uid \<and> perm_op_id p = op) (permissions st)"

definition permission_check_emit :: "store \<Rightarrow> int \<Rightarrow> int \<Rightarrow> bool" where
  "permission_check_emit st uid op =
     (case first_permission st uid op of
        None \<Rightarrow> False
      | Some p \<Rightarrow> if access_level p = ''viewer'' then False else True)"

text \<open>
  \<open>permission_check_admin\<close> reads \<open>permission.access_level\<close> without testing the
  query result: on \<open>None\<close> the attribute access raises \<open>AttributeError\<close>.
\<close>

definition permission_check_admin :: "store \<Rightarrow> int \<Rightarrow> int \<Rightarrow> error + bool" where
  "permission_check_admin st uid op =
     (case first_permission st uid op of
        None \<Rightarrow> Inl AttributeError
      | Some p \<Rightarrow>
          if access_level p = ''creator'' \<or> access_level p = ''admin'' then Inr True
          else Inr False)"

section \<open>Events sent to clients\<close>

text \<open>
  A payload is a flat dictionary of JSON values. \<open>json.dumps\<close> of a payload is kept as
  the payload itself.
\<close>

datatype jval = JInt int | JStr string | JNone | JList "jval list" | JType MessageType

type_synonym jdict = "(string \<times> jval) list"

text \<open>
  One call of \<open>socketio.emit\<close>: the event name, the data, and the \<open>to\<close> argument
  (\<open>None\<close> when the call site passes none; otherwise the room addressed). Rooms are
  named by the operation id: the code names them \<open>str(op_id)\<close>, which is injective.
\<close>

record emission =
  em_event :: string
  em_data :: jdict
  em_to :: "int option"

text \<open>
  Every \<open>socketio.emit(event, data)\<close> in sockets_manager.py has exactly these two
  arguments.
\<close>

definition socketio_emit :: "string \<Rightarrow> jdict \<Rightarrow> emission" where
  "socketio_emit ev data = \<lparr>em_event = ev, em_data = data, em_to = None\<rparr>"

text \<open>
  Delivery by Flask-SocketIO: an emission without \<open>to\<close> goes to every connected
  client, one with \<open>to\<close> to the connected clients that joined that room.
\<close>

definition recipients :: "sid set \<Rightarrow> (sid \<times> int) set \<Rightarrow> emission \<Rightarrow> sid set" where
  "recipients connected rms e =
     (case em_to e of
        None \<Rightarrow> connected
      | Some r \<Rightarrow> {c \<in> connected. (c, r) \<in> rms})"

section \<open>The state of SocketsManager\<close>

record socket_storage =
  s_id :: sid
  u_id :: int

text \<open>
  \<open>active_users_per_operation\<close> is a Python dict from operation id to a set of user
  ids: an association list in insertion order, since the code iterates over it.
\<close>

type_synonym presence = "(int \<times> int set) list"

text \<open>
  \<open>sockets\<close> and \<open>active_users_per_operation\<close> are the fields \<open>__init__\<close> creates;
  \<open>rooms\<close> is the room table of Flask-SocketIO that \<open>join_room\<close> writes.
\<close>

record sm_state =
  sockets :: "socket_storage list"
  active_users_per_operation :: presence
  rooms :: "(sid \<times> int) set"

definition init_sm :: sm_state where
  "init_sm = \<lparr>sockets = [], active_users_per_operation = [], rooms = {}\<rparr>"

text \<open>\<open>d[k] = v\<close>: replaces the value of a present key in place, appends a new key.\<close>

definition dict_store :: "presence \<Rightarrow> int \<Rightarrow> int set \<Rightarrow> presence" where
  "dict_store d k v =
     (if k \<in> fst ` set d then map (\<lambda>(k', v'). if k' = k then (k', v) else (k', v')) d
      else d @ [(k, v)])"

text \<open>\<open>del d[k]\<close>\<close>

definition dict_del :: "presence \<Rightarrow> int \<Rightarrow> presence" where
  "dict_del d k = filter (\<lambda>(k', _). k' \<noteq> k) d"

text \<open>
  \<open>d[k]\<close> where the code has made sure the key is present (an absent key reads as the
  empty set here; \<open>handle_operation_selected\<close> never reaches that case).
\<close>

definition dict_get :: "presence \<Rightarrow> int \<Rightarrow> int set" where
  "dict_get d k = (case map_of d k of None \<Rightarrow> {} | Some v \<Rightarrow> v)"

definition active_user_update :: "int \<Rightarrow> nat \<Rightarrow> emission" where
  "active_user_update op n =
     socketio_emit ''active-user-update'' [(''op_id'', JInt op), (''count'', JInt (int n))]"

section \<open>Presence tracking\<close>

text \<open>
  \<open>update_active_users\<close>: the loop runs over the snapshot \<open>list(d.items())\<close>; the set
  of an item is the object stored in the dict, so removing the user from it changes the
  dict entry. The live dict and the emissions so far are threaded through the loop.
\<close>

fun update_active_users_loop ::
  "int \<Rightarrow> presence \<Rightarrow> presence \<Rightarrow> emission list \<Rightarrow> presence \<times> emission list" where
  "update_active_users_loop uid [] d es = (d, es)"
| "update_active_users_loop uid ((op, user_ids) # items) d es =
     (if uid \<in> user_ids then
        (let user_ids' = user_ids - {uid}; active_count = card user_ids' in
         if user_ids' \<noteq> {} then
           update_active_users_loop uid items (dict_store d op user_ids')
             (es @ [active_user_update op active_count])
         else
           update_active_users_loop uid items (dict_del d op)
             (es @ [active_user_update op 0]))
      else update_active_users_loop uid items d es)"

definition update_active_users :: "int \<Rightarrow> presence \<Rightarrow> presence \<times> emission list" where
  "update_active_users uid d = update_active_users_loop uid d d []"

definition remove_active_user_id_from_specific_operation ::
  "int \<Rightarrow> int \<Rightarrow> presence \<Rightarrow> presence \<times> emission list" where
  "remove_active_user_id_from_specific_operation uid op d =
     (case map_of d op of
        None \<Rightarrow> (d, [])
      | Some user_ids \<Rightarrow>
          if uid \<in> user_ids then
            (let user_ids' = user_ids - {uid}; active_count = card user_ids' in
             if user_ids' \<noteq> {} then (dict_store d op user_ids', [active_user_update op active_count])
             else (dict_del d op, [active_user_update op 0]))
          else (d, []))"

section \<open>Session handlers\<close>

record selected_json =
  sel_token :: token
  sel_op_id :: int

definition handle_operation_selected ::
  "store \<Rightarrow> selected_json \<Rightarrow> sm_state \<Rightarrow> sm_state \<times> emission list" where
  "handle_operation_selected st json_config sm =
     (case verify_auth_token st (sel_token json_config) of
        None \<Rightarrow> (sm, [])
      | Some user \<Rightarrow>
          (let op_id = sel_op_id json_config;
               (d1, es) = update_active_users (user_id user) (active_users_per_operation sm);
               d2 = (if op_id \<notin> fst ` set d1 then dict_store d1 op_id {} else d1);
               d3 = dict_store d2 op_id (insert (user_id user) (dict_get d2 op_id));
               active_count = card (dict_get d3 op_id)
           in (sm\<lparr>active_users_per_operation := d3\<rparr>,
               es @ [active_user_update op_id active_count])))"

definition join_room :: "sid \<Rightarrow> int \<Rightarrow> (sid \<times> int) set \<Rightarrow> (sid \<times> int) set" where
  "join_room request_sid room rms = insert (request_sid, room) rms"

definition handle_start_event ::
  "store \<Rightarrow> sid \<Rightarrow> token \<Rightarrow> sm_state \<Rightarrow> sm_state \<times> emission list" where
  "handle_start_event st request_sid tok sm =
     (case verify_auth_token st tok of
        None \<Rightarrow> (sm, [])
      | Some user \<Rightarrow>
          (let perms = filter (\<lambda>p. perm_u_id p = user_id user) (permissions st);
               rms = foldl (\<lambda>r p. join_room request_sid (perm_op_id p) r) (rooms sm) perms;
               socket_storage = \<lparr>s_id = request_sid, u_id = user_id user\<rparr>
           in (sm\<lparr>rooms := rms, sockets := sockets sm @ [socket_storage]\<rparr>, [])))"

text \<open>mslib/mscolab/utils.py: the last matching entry wins.\<close>

definition get_user_id :: "socket_storage list \<Rightarrow> sid \<Rightarrow> int option" where
  "get_user_id socks sid' =
     foldl (\<lambda>uid ss. if s_id ss = sid' then Some (u_id ss) else uid) None socks"

definition get_session_id :: "socket_storage list \<Rightarrow> int \<Rightarrow> sid option" where
  "get_session_id socks uid =
     foldl (\<lambda>sid' ss. if u_id ss = uid then Some (s_id ss) else sid') None socks"

text \<open>
  \<open>handle_disconnect\<close>: \<open>if user_id:\<close> is Python truthiness, false for \<open>None\<close> and
  for \<open>0\<close>.
\<close>

definition handle_disconnect :: "sid \<Rightarrow> sm_state \<Rightarrow> sm_state \<times> emission list" where
  "handle_disconnect request_sid sm =
     (let user_id' = get_user_id (sockets sm) request_sid;
          (d, es) = (case user_id' of
                       None \<Rightarrow> (active_users_per_operation sm, [])
                     | Some uid \<Rightarrow>
                         if uid \<noteq> 0 then update_active_users uid (active_users_per_operation sm)
                         else (active_users_per_operation sm, []))
      in (sm\<lparr>active_users_per_operation := d,
              sockets := filter (\<lambda>d. s_id d \<noteq> request_sid) (sockets sm)\<rparr>, es))"

definition emit_revoke_permission :: "int \<Rightarrow> int \<Rightarrow> emission list" where
  "emit_revoke_permission uid op_id =
     [socketio_emit ''revoke-permission'' [(''op_id'', JInt op_id), (''u_id'', JInt uid)]]"

section \<open>Collaboration handlers\<close>

text \<open>
  \<open>get_message_dict\<close> (utils.py) reads \<open>message.user.username\<close>: the relationship
  \<open>user\<close> of models.py is the user row with the message's \<open>u_id\<close>, and \<open>None\<close>
  when there is none, on which the attribute access raises.
\<close>

definition get_message_dict :: "store \<Rightarrow> message \<Rightarrow> error + jdict" where
  "get_message_dict st m =
     (case find (\<lambda>u. user_id u = msg_u_id m) (users st) of
        None \<Rightarrow> Inl AttributeError
      | Some u \<Rightarrow>
          Inr [(''id'', JInt (msg_id m)),
               (''u_id'', JInt (msg_u_id m)),
               (''username'', JStr (username u)),
               (''text'', JStr (msg_text m)),
               (''message_type'', JType (msg_type m)),
               (''reply_id'', (case msg_reply_id m of None \<Rightarrow> JNone | Some r \<Rightarrow> JInt r)),
               (''replies'', JList []),
               (''time'', JStr (msg_created_at m))])"

text \<open>
  The chat manager and the file manager are handed to \<open>SocketsManager.__init__\<close>; the
  handlers take the methods they call as arguments. A call returns the new store with
  its result, or raises. An optional argument the call site leaves out is \<open>None\<close>.
  The arguments of \<open>add_message\<close> are user, text, operation id, \<open>message_type\<close> and
  \<open>reply_id\<close>; those of \<open>save_file\<close> are operation id, content, user,
  \<open>version_name\<close> and \<open>comment\<close>.
\<close>

type_synonym add_message_fn =
  "store \<Rightarrow> user \<Rightarrow> string \<Rightarrow> int \<Rightarrow> MessageType option \<Rightarrow> int option \<Rightarrow> error + (message \<times> store)"

type_synonym delete_message_fn = "store \<Rightarrow> int \<Rightarrow> error + store"

type_synonym save_file_fn =
  "store \<Rightarrow> int \<Rightarrow> string \<Rightarrow> user \<Rightarrow> string option \<Rightarrow> string \<Rightarrow> error + (bool \<times> store)"

text \<open>
  The payloads hold the values after the handler's \<open>int(...)\<close> conversions; the
  operation id is passed on as \<open>str(op_id)\<close> and converted back by \<open>Message.__init__\<close>.
\<close>

record message_json =
  mj_token :: token
  mj_op_id :: int
  mj_reply_id :: int
  mj_message_text :: string

definition handle_message ::
  "add_message_fn \<Rightarrow> store \<Rightarrow> message_json \<Rightarrow> error + (store \<times> emission list)" where
  "handle_message cm_add_message st j =
     (let op_id = mj_op_id j; reply_id = mj_reply_id j in
      case verify_auth_token st (mj_token j) of
        None \<Rightarrow> Inr (st, [])
      | Some user \<Rightarrow>
          if permission_check_emit st (user_id user) op_id then
            (case cm_add_message st user (mj_message_text j) op_id None (Some reply_id) of
               Inl e \<Rightarrow> Inl e
             | Inr (new_message, st') \<Rightarrow>
                 (case get_message_dict st' new_message of
                    Inl e \<Rightarrow> Inl e
                  | Inr new_message_dict \<Rightarrow>
                      if reply_id = - 1 then
                        Inr (st', [socketio_emit ''chat-message-client'' new_message_dict])
                      else
                        Inr (st', [socketio_emit ''chat-message-reply-client'' new_message_dict])))
          else Inr (st, []))"

record delete_json =
  dj_token :: token
  dj_op_id :: int
  dj_message_id :: int

definition handle_message_delete ::
  "delete_message_fn \<Rightarrow> store \<Rightarrow> delete_json \<Rightarrow> error + (store \<times> emission list)" where
  "handle_message_delete cm_delete_message st j =
     (case verify_auth_token st (dj_token j) of
        None \<Rightarrow> Inr (st, [])
      | Some user \<Rightarrow>
          if permission_check_emit st (user_id user) (dj_op_id j) then
            (case cm_delete_message st (dj_message_id j) of
               Inl e \<Rightarrow> Inl e
             | Inr st' \<Rightarrow>
                 Inr (st', [socketio_emit ''delete-message-client''
                              [(''message_id'', JInt (dj_message_id j))]]))
          else Inr (st, []))"

text \<open>
  \<open>comment\<close>, \<open>version_name\<close> and \<open>messageText\<close> are read with \<open>json_req.get\<close>:
  an absent key is \<open>None\<close> here, and \<open>comment\<close> then defaults to the empty string. The
  f-string prints an absent \<open>messageText\<close> as \<open>None\<close>.
\<close>

record file_save_json =
  fs_token :: token
  fs_op_id :: int
  fs_content :: string
  fs_comment :: "string option"
  fs_version_name :: "string option"
  fs_messageText :: "string option"

definition service_message :: "user \<Rightarrow> string option \<Rightarrow> string" where
  "service_message user messageText =
     ''[service message] **'' @ username user @ ''** saved changes. '' @
     (case messageText of None \<Rightarrow> ''None'' | Some t \<Rightarrow> t)"

definition file_changed :: "int \<Rightarrow> int \<Rightarrow> emission" where
  "file_changed op_id uid =
     socketio_emit ''file-changed'' [(''op_id'', JInt op_id), (''u_id'', JInt uid)]"

definition handle_file_save ::
  "save_file_fn \<Rightarrow> add_message_fn \<Rightarrow> store \<Rightarrow> file_save_json \<Rightarrow> error + (store \<times> emission list)" where
  "handle_file_save fm_save_file cm_add_message st json_req =
     (let op_id = fs_op_id json_req;
          content = fs_content json_req;
          comment = (case fs_comment json_req of None \<Rightarrow> [] | Some c \<Rightarrow> c);
          version_name = fs_version_name json_req;
          messageText = fs_messageText json_req in
      case verify_auth_token st (fs_token json_req) of
        None \<Rightarrow> Inr (st, [])
      | Some user \<Rightarrow>
          if \<not> permission_check_emit st (user_id user) op_id then Inr (st, [])
          else
            (case fm_save_file st op_id content user version_name comment of
               Inl e \<Rightarrow> Inl e
             | Inr (saved, st1) \<Rightarrow>
                 if \<not> saved then Inr (st1, [])
                 else
                   (case cm_add_message st1 user (service_message user messageText) op_id
                           (Some SYSTEM_MESSAGE) None of
                      Inl e \<Rightarrow> Inl e
                    | Inr (new_message, st2) \<Rightarrow>
                        (case get_message_dict st2 new_message of
                           Inl e \<Rightarrow> Inl e
                         | Inr new_message_dict \<Rightarrow>
                             Inr (st2, [socketio_emit ''chat-message-client'' new_message_dict,
                                        file_changed op_id (user_id user)])))))"

section \<open>The chat manager and the file manager\<close>

text \<open>The next value of an autoincrement primary key.\<close>

definition next_id :: "int list \<Rightarrow> int" where
  "next_id ids = fold max ids 0 + 1"

text \<open>
  Modelled from the spec: \<open>ChatManager.add_message\<close> (mslib/mscolab/chat_manager.py)
  is not among the sources. The spec: send_message "creates a Message (reply_id = -1
  sentinel means top-level)"; a message "belongs to one operation and one author";
  StoreFailure is "persistence layer unavailable - fatal, propagate to caller, do not
  partially apply". The defaults of \<open>message_type\<close> and \<open>reply_id\<close> are those of
  \<open>Message.__init__\<close> in models.py.
\<close>

definition ChatManager_add_message :: add_message_fn where
  "ChatManager_add_message st user text op_id message_type reply_id =
     (if \<not> available st then Inl StoreFailure
      else
        (let m = \<lparr>msg_id = next_id (map msg_id (messages st)),
                  msg_op_id = op_id,
                  msg_u_id = user_id user,
                  msg_text = text,
                  msg_type = (case message_type of None \<Rightarrow> TEXT | Some t \<Rightarrow> t),
                  msg_reply_id = (case reply_id of
                                    None \<Rightarrow> None
                                  | Some r \<Rightarrow> if r = - 1 then None else Some r),
                  msg_created_at = now st\<rparr>
         in Inr (m, st\<lparr>messages := messages st @ [m]\<rparr>)))"

text \<open>
  Modelled from the spec: \<open>FileManager.save_file\<close> (mslib/mscolab/file_manager.py) is
  not among the sources. The spec: save_document "persists a new Change record and
  updates the document blob"; a Change is "an immutable version record for an
  operation's document (hash, optional name/comment, timestamp, author)", the log is
  append-only; StoreFailure as above.
\<close>

definition FileManager_save_file :: save_file_fn where
  "FileManager_save_file st op_id content user version_name comment =
     (if \<not> available st then Inl StoreFailure
      else
        (let c = \<lparr>chg_id = next_id (map chg_id (changes st)),
                  chg_op_id = op_id,
                  chg_u_id = user_id user,
                  chg_commit_hash = hash_blob st content,
                  chg_version_name = version_name,
                  chg_comment = Some comment\<rparr>
         in Inr (True, st\<lparr>changes := changes st @ [c],
                           documents := (documents st)(op_id \<mapsto> content)\<rparr>)))"

text \<open>
  The delete cascade of models.py:
  \<open>replies = db.relationship('Message', cascade='all,delete,delete-orphan', single_parent=True)\<close>
  over the self-referential foreign key \<open>reply_id\<close>. The replies of a message are the
  rows whose \<open>reply_id\<close> is its id; deleting a row through the session deletes its
  replies, and theirs. \<open>replies_of ms ids\<close> are the ids, not yet in \<open>ids\<close>, of the rows
  that reply to a row of \<open>ids\<close>; \<open>cascade ms ids\<close> closes \<open>ids\<close> under it.
\<close>

definition replies_of :: "message list \<Rightarrow> int list \<Rightarrow> int list" where
  "replies_of ms ids =
     filter (\<lambda>i. i \<notin> set ids)
       (map msg_id
          (filter (\<lambda>m. case msg_reply_id m of None \<Rightarrow> False | Some p \<Rightarrow> p \<in> set ids) ms))"

function cascade :: "message list \<Rightarrow> int list \<Rightarrow> int list" where
  "cascade ms ids =
     (if replies_of ms ids = [] then ids else cascade ms (ids @ replies_of ms ids))"
  by pat_completeness auto
termination
proof (relation "measure (\<lambda>(ms, ids). card (msg_id ` set ms - set ids))")
  show "wf (measure (\<lambda>(ms, ids). card (msg_id ` set ms - set ids)))" by simp
next
  fix ms :: "message list" and ids :: "int list"
  assume ne: "replies_of ms ids \<noteq> []"
  then obtain i where i: "i \<in> set (replies_of ms ids)" by (cases "replies_of ms ids") auto
  then have "i \<in> msg_id ` set ms - set ids" by (auto simp: replies_of_def)
  moreover have "i \<notin> msg_id ` set ms - set (ids @ replies_of ms ids)" using i by simp
  ultimately have "msg_id ` set ms - set (ids @ replies_of ms ids) \<subset> msg_id ` set ms - set ids"
    by auto
  then have "card (msg_id ` set ms - set (ids @ replies_of ms ids))
             < card (msg_id ` set ms - set ids)"
    by (intro psubset_card_mono) auto
  then show "((ms, ids @ replies_of ms ids), (ms, ids))
             \<in> measure (\<lambda>(ms, ids). card (msg_id ` set ms - set ids))"
    by simp
qed

declare cascade.simps [simp del]

text \<open>
  Modelled from the spec: \<open>ChatManager.delete_message\<close> (mslib/mscolab/chat_manager.py)
  is not among the sources. It deletes the message row with the given id through the
  ORM session, so the cascade above applies; the spec drops an action on a message
  that no longer exists (NotFound) and propagates StoreFailure.
\<close>

definition ChatManager_delete_message :: delete_message_fn where
  "ChatManager_delete_message st message_id =
     (if \<not> available st then Inl StoreFailure
      else
        (case find (\<lambda>m. msg_id m = message_id) (messages st) of
           None \<Rightarrow> Inr st
         | Some m \<Rightarrow>
             Inr (st\<lparr>messages :=
                        filter (\<lambda>x. msg_id x \<notin> set (cascade (messages st) [message_id]))
                          (messages st)\<rparr>)))"

section \<open>Runs of the session handlers\<close>

text \<open>
  The events that change the state of SocketsManager, each handled against the store as
  it is when the event arrives. \<open>RemoveFromOperation\<close> is the server's call of
  \<open>remove_active_user_id_from_specific_operation\<close>.
\<close>

datatype event =
    Start sid token
  | OperationSelected selected_json
  | Disconnect sid
  | RemoveFromOperation int int

fun handle :: "store \<Rightarrow> event \<Rightarrow> sm_state \<Rightarrow> sm_state \<times> emission list" where
  "handle st (Start request_sid tok) sm = handle_start_event st request_sid tok sm"
| "handle st (OperationSelected json_config) sm = handle_operation_selected st json_config sm"
| "handle st (Disconnect request_sid) sm = handle_disconnect request_sid sm"
| "handle st (RemoveFromOperation uid op_id) sm =
     (let (d, es) = remove_active_user_id_from_specific_operation uid op_id
                      (active_users_per_operation sm)
      in (sm\<lparr>active_users_per_operation := d\<rparr>, es))"

fun run :: "(store \<times> event) list \<Rightarrow> sm_state \<Rightarrow> sm_state" where
  "run [] sm = sm"
| "run ((st, e) # evs) sm = run evs (fst (handle st e sm))"

section \<open>Notions used in the statements\<close>

text \<open>The operations in whose presence set a user id occurs, in dict order.\<close>

definition active_ops :: "int \<Rightarrow> presence \<Rightarrow> int list" where
  "active_ops uid d = map fst (filter (\<lambda>(op, us). uid \<in> us) d)"

text \<open>
  The result of \<open>update_active_users\<close> in closed form: an entry whose set is exactly
  the user is deleted, every other entry loses the user; one update per entry that held
  the user, with the size of what is left.
\<close>

definition presence_after :: "int \<Rightarrow> presence \<Rightarrow> presence" where
  "presence_after uid d =
     map (\<lambda>(op, us). (op, us - {uid})) (filter (\<lambda>(op, us). us \<noteq> {uid}) d)"

definition updates_for :: "int \<Rightarrow> presence \<Rightarrow> emission list" where
  "updates_for uid d =
     map (\<lambda>(op, us). active_user_update op (card (us - {uid})))
       (filter (\<lambda>(op, us). uid \<in> us) d)"

text \<open>The invariant of the presence dict: distinct keys, and every user id in at most one set.\<close>

definition presence_inv :: "presence \<Rightarrow> bool" where
  "presence_inv d = (distinct (map fst d) \<and> (\<forall>u. length (active_ops u d) \<le> 1))"

text \<open>
  The reply thread of a message id: the id itself and the ids of the rows that reply,
  directly or through other replies, to it.
\<close>

inductive_set thread :: "message list \<Rightarrow> int \<Rightarrow> int set"
  for ms :: "message list" and root :: int where
    root: "root \<in> thread ms root"
  | reply: "m \<in> set ms \<Longrightarrow> msg_reply_id m = Some p \<Longrightarrow> p \<in> thread ms root
            \<Longrightarrow> msg_id m \<in> thread ms root"

section \<open>Example data\<close>

text \<open>
  Three users: alice created operation 42 and administers operation 7, bob may only
  view operation 42, carol has no permission. Message 2 replies to message 1 and
  message 3 replies to message 2.
\<close>

definition ex_messages :: "message list" where
  "ex_messages =
     [\<lparr>msg_id = 1, msg_op_id = 42, msg_u_id = 1, msg_text = ''hi'', msg_type = TEXT,
       msg_reply_id = None, msg_created_at = ''t1''\<rparr>,
      \<lparr>msg_id = 2, msg_op_id = 42, msg_u_id = 1, msg_text = ''re'', msg_type = TEXT,
       msg_reply_id = Some 1, msg_created_at = ''t2''\<rparr>,
      \<lparr>msg_id = 3, msg_op_id = 42, msg_u_id = 1, msg_text = ''re re'', msg_type = TEXT,
       msg_reply_id = Some 2, msg_created_at = ''t3''\<rparr>]"

definition ex_store :: store where
  "ex_store =
     \<lparr>users = [\<lparr>user_id = 1, username = ''alice''\<rparr>,
               \<lparr>user_id = 2, username = ''bob''\<rparr>,
               \<lparr>user_id = 3, username = ''carol''\<rparr>],
      permissions = [\<lparr>perm_op_id = 42, perm_u_id = 1, access_level = ''creator''\<rparr>,
                     \<lparr>perm_op_id = 42, perm_u_id = 2, access_level = ''viewer''\<rparr>,
                     \<lparr>perm_op_id = 7, perm_u_id = 1, access_level = ''admin''\<rparr>],
      messages = ex_messages,
      changes = [],
      documents = (\<lambda>_. None),
      available = True,
      now = ''t4'',
      hash_blob = (\<lambda>c. c),
      decode_token = (\<lambda>t. if t = ''tokenA'' then Some (Some 1)
                            else if t = ''tokenB'' then Some (Some 2)
                            else if t = ''tokenC'' then Some (Some 3)
                            else None)\<rparr>"

text \<open>All three users have connected and sent \<open>start\<close>.\<close>

definition ex_sm :: sm_state where
  "ex_sm = run [(ex_store, Start ''sidA'' ''tokenA''),
                (ex_store, Start ''sidB'' ''tokenB''),
                (ex_store, Start ''sidC'' ''tokenC'')] init_sm"

text \<open>Alice, connected and started as in \<open>ex_sm\<close>, has selected operation 42.\<close>

definition ex_selected :: sm_state where
  "ex_selected =
     fst (handle_operation_selected ex_store \<lparr>sel_token = ''tokenA'', sel_op_id = 42\<rparr> ex_sm)"

text \<open>A chat message on operation 42, a save of its document, a delete request.\<close>

definition ex_chat :: "token \<Rightarrow> int \<Rightarrow> message_json" where
  "ex_chat tok reply_id =
     \<lparr>mj_token = tok, mj_op_id = 42, mj_reply_id = reply_id, mj_message_text = ''hi''\<rparr>"

definition ex_save :: file_save_json where
  "ex_save = \<lparr>fs_token = ''tokenA'', fs_op_id = 42, fs_content = ''<ftml/>'',
              fs_comment = None, fs_version_name = None, fs_messageText = Some ''v2''\<rparr>"

definition ex_delete :: "int \<Rightarrow> delete_json" where
  "ex_delete message_id = \<lparr>dj_token = ''tokenA'', dj_op_id = 42, dj_message_id = message_id\<rparr>"

section \<open>The presence dict in closed form\<close>

lemma map_other_keys:
  "k \<notin> fst ` set xs \<Longrightarrow>
   map (\<lambda>(k', v'a). if k' = k then (k', v') else (k', v'a)) xs = xs"
  by (induction xs) auto

lemma filter_other_keys:
  "k \<notin> fst ` set xs \<Longrightarrow> filter (\<lambda>(k', _). k' \<noteq> k) xs = xs"
  by (induction xs) auto

lemma dict_store_mid:
  "k \<notin> fst ` set pre \<Longrightarrow> k \<notin> fst ` set post \<Longrightarrow>
   dict_store (pre @ (k, v) # post) k v' = pre @ (k, v') # post"
  by (simp add: dict_store_def map_other_keys)

lemma dict_del_mid:
  "k \<notin> fst ` set pre \<Longrightarrow> k \<notin> fst ` set post \<Longrightarrow>
   dict_del (pre @ (k, v) # post) k = pre @ post"
  by (simp add: dict_del_def filter_other_keys)

lemma loop_eq:
  "distinct (map fst (pre @ items)) \<Longrightarrow>
   update_active_users_loop uid items (pre @ items) es =
     (pre @ presence_after uid items, es @ updates_for uid items)"
proof (induction items arbitrary: pre es)
  case Nil
  then show ?case by (simp add: presence_after_def updates_for_def)
next
  case (Cons a items)
  obtain op us where a: "a = (op, us)" by (cases a)
  from Cons.prems a have k1: "op \<notin> fst ` set pre" and k2: "op \<notin> fst ` set items"
    and d0: "distinct (map fst (pre @ items))" by auto
  show ?case
  proof (cases "uid \<in> us")
    case False
    from Cons.prems a have d1: "distinct (map fst ((pre @ [(op, us)]) @ items))" by simp
    have ne: "us \<noteq> {uid}" using False by auto
    have eq: "us - {uid} = us" using False by auto
    show ?thesis using Cons.IH[OF d1, of es] False ne eq
      by (simp add: a presence_after_def updates_for_def)
  next
    case True
    show ?thesis
    proof (cases "us - {uid} = {}")
      case e: True
      then have useq: "us = {uid}" using True by auto
      show ?thesis using Cons.IH[OF d0, of "es @ [active_user_update op 0]"] True
        by (simp add: a dict_del_mid[OF k1 k2] useq presence_after_def updates_for_def)
    next
      case ne: False
      then have usne: "us \<noteq> {uid}" by auto
      from Cons.prems a have d1: "distinct (map fst ((pre @ [(op, us - {uid})]) @ items))" by simp
      show ?thesis
        using Cons.IH[OF d1, of "es @ [active_user_update op (card (us - {uid}))]"] True ne usne
        by (simp add: a dict_store_mid[OF k1 k2] presence_after_def updates_for_def Let_def)
    qed
  qed
qed

lemma update_active_users_eq:
  "distinct (map fst d) \<Longrightarrow>
   update_active_users uid d = (presence_after uid d, updates_for uid d)"
  using loop_eq[of "[]" d uid "[]"] by (simp add: update_active_users_def)

lemma active_ops_presence_after:
  "active_ops u (presence_after uid d) = (if u = uid then [] else active_ops u d)"
  by (induction d) (auto simp: active_ops_def presence_after_def)

lemma keys_presence_after:
  "map fst (presence_after uid d) = map fst (filter (\<lambda>(op, us). us \<noteq> {uid}) d)"
  by (induction d) (auto simp: presence_after_def)

lemma distinct_presence_after:
  "distinct (map fst d) \<Longrightarrow> distinct (map fst (presence_after uid d))"
  by (simp add: keys_presence_after distinct_map_filter)

lemma map_of_presence_after:
  "distinct (map fst d) \<Longrightarrow>
   map_of (presence_after uid d) k =
     (case map_of d k of None \<Rightarrow> None
      | Some us \<Rightarrow> if us = {uid} then None else Some (us - {uid}))"
proof (induction d)
  case Nil
  then show ?case by (simp add: presence_after_def)
next
  case (Cons a d)
  obtain op us where a: "a = (op, us)" by (cases a)
  from Cons.prems a have nk: "map_of d op = None"
    by (simp add: map_of_eq_None_iff)
  from Cons.prems have ih: "map_of (presence_after uid d) k =
     (case map_of d k of None \<Rightarrow> None
      | Some us \<Rightarrow> if us = {uid} then None else Some (us - {uid}))"
    using Cons.IH by simp
  have unf: "presence_after uid ((op, us) # d) =
      (if us = {uid} then presence_after uid d else (op, us - {uid}) # presence_after uid d)"
    by (simp add: presence_after_def)
  show ?case
  proof (cases "k = op")
    case True
    then show ?thesis using ih nk by (simp add: unf a)
  next
    case False
    then show ?thesis using ih by (simp add: unf a)
  qed
qed

lemma dict_get_distinct:
  "distinct (map fst d) \<Longrightarrow> (k, us) \<in> set d \<Longrightarrow> dict_get d k = us"
  by (simp add: dict_get_def)

lemma dict_store_present:
  assumes "distinct (map fst d)" "k \<in> fst ` set d"
  shows "dict_store d k (insert uid (dict_get d k)) =
         map (\<lambda>(k', us). if k' = k then (k', insert uid us) else (k', us)) d"
proof -
  have "map (\<lambda>(k', v'). if k' = k then (k', insert uid (dict_get d k)) else (k', v')) d =
        map (\<lambda>(k', us). if k' = k then (k', insert uid us) else (k', us)) d"
    by (rule map_cong) (auto simp: dict_get_distinct[OF assms(1)])
  then show ?thesis using assms(2) by (simp add: dict_store_def)
qed

lemma dict_store_absent:
  assumes "k \<notin> fst ` set d"
  shows "dict_store (dict_store d k {}) k (insert uid (dict_get (dict_store d k {}) k)) =
         d @ [(k, {uid})]"
proof -
  have s1: "dict_store d k {} = d @ [(k, {})]" using assms by (simp add: dict_store_def)
  have m: "map_of d k = None" using assms by (simp add: map_of_eq_None_iff)
  have g: "dict_get (d @ [(k, {})]) k = {}" using m by (simp add: dict_get_def map_add_def)
  show ?thesis using dict_store_mid[of k d "[]" "{}" "{uid}"] assms by (simp add: s1 g)
qed

lemma selected_presence:
  assumes "distinct (map fst (active_users_per_operation sm))"
    and "verify_auth_token st (sel_token j) = Some user"
  shows "active_users_per_operation (fst (handle_operation_selected st j sm)) =
     (let d1 = presence_after (user_id user) (active_users_per_operation sm) in
      if sel_op_id j \<in> fst ` set d1
      then map (\<lambda>(k, us). if k = sel_op_id j then (k, insert (user_id user) us) else (k, us)) d1
      else d1 @ [(sel_op_id j, {user_id user})])"
proof -
  let ?d1 = "presence_after (user_id user) (active_users_per_operation sm)"
  have dd: "distinct (map fst ?d1)" using assms(1) by (rule distinct_presence_after)
  show ?thesis
  proof (cases "sel_op_id j \<in> fst ` set ?d1")
    case True
    then show ?thesis
      using assms dict_store_present[OF dd True, of "user_id user"]
      by (simp add: handle_operation_selected_def update_active_users_eq Let_def)
  next
    case False
    then show ?thesis
      using assms dict_store_absent[OF False, of "user_id user"]
      by (simp add: handle_operation_selected_def update_active_users_eq Let_def)
  qed
qed

lemma filter_eq_distinct:
  "distinct xs \<Longrightarrow> x \<in> set xs \<Longrightarrow> filter (\<lambda>k. k = x) xs = [x]"
  by (induction xs) (auto simp: filter_empty_conv)

lemma active_ops_insert_other:
  "u \<noteq> uid \<Longrightarrow>
   active_ops u (map (\<lambda>(k, us). if k = op then (k, insert uid us) else (k, us)) d) = active_ops u d"
  by (induction d) (auto simp: active_ops_def split: if_splits)

lemma active_ops_insert_self:
  "active_ops uid d = [] \<Longrightarrow>
   active_ops uid (map (\<lambda>(k, us). if k = op then (k, insert uid us) else (k, us)) d) =
     filter (\<lambda>k. k = op) (map fst d)"
  by (induction d) (auto simp: active_ops_def split: if_splits)

lemma active_ops_append:
  "active_ops u (d @ d') = active_ops u d @ active_ops u d'"
  by (simp add: active_ops_def)

lemma keys_insert_map:
  "fst \<circ> (\<lambda>(k, us). if k = op then (k, insert uid us) else (k, us)) = fst"
  by (auto simp: fun_eq_iff)

lemma selected_active_ops:
  assumes "distinct (map fst (active_users_per_operation sm))"
    and "verify_auth_token st (sel_token j) = Some user"
  shows "active_ops u (active_users_per_operation (fst (handle_operation_selected st j sm))) =
     (if u = user_id user then [sel_op_id j] else active_ops u (active_users_per_operation sm))"
proof -
  let ?d1 = "presence_after (user_id user) (active_users_per_operation sm)"
  have dd: "distinct (map fst ?d1)" using assms(1) by (rule distinct_presence_after)
  have e: "active_ops (user_id user) ?d1 = []" by (simp add: active_ops_presence_after)
  show ?thesis
  proof (cases "sel_op_id j \<in> fst ` set ?d1")
    case True
    then have t: "sel_op_id j \<in> set (map fst ?d1)" by simp
    show ?thesis using True filter_eq_distinct[OF dd t]
      by (simp add: selected_presence[OF assms] active_ops_insert_other
          active_ops_insert_self[OF e] active_ops_presence_after)
  next
    case False
    then show ?thesis
      by (simp add: selected_presence[OF assms] active_ops_append e active_ops_presence_after)
        (simp add: active_ops_def)
  qed
qed

lemma selected_distinct:
  assumes "distinct (map fst (active_users_per_operation sm))"
  shows "distinct (map fst (active_users_per_operation (fst (handle_operation_selected st j sm))))"
proof (cases "verify_auth_token st (sel_token j)")
  case None
  then show ?thesis using assms by (simp add: handle_operation_selected_def)
next
  case (Some user)
  let ?d1 = "presence_after (user_id user) (active_users_per_operation sm)"
  have dd: "distinct (map fst ?d1)" using assms(1) by (rule distinct_presence_after)
  show ?thesis using dd
    by (simp add: selected_presence[OF assms Some] keys_insert_map Let_def)
qed

section \<open>The presence invariant\<close>

lemma presence_inv_presence_after:
  "presence_inv d \<Longrightarrow> presence_inv (presence_after uid d)"
  by (simp add: presence_inv_def distinct_presence_after active_ops_presence_after)

lemma presence_inv_selected:
  assumes "presence_inv (active_users_per_operation sm)"
  shows "presence_inv (active_users_per_operation (fst (handle_operation_selected st j sm)))"
proof (cases "verify_auth_token st (sel_token j)")
  case None
  then show ?thesis using assms by (simp add: handle_operation_selected_def)
next
  case (Some user)
  from assms have d: "distinct (map fst (active_users_per_operation sm))"
    by (simp add: presence_inv_def)
  show ?thesis using assms selected_distinct[OF d, of st j]
    by (simp add: presence_inv_def selected_active_ops[OF d Some])
qed

lemma presence_inv_disconnect:
  assumes "presence_inv (active_users_per_operation sm)"
  shows "presence_inv (active_users_per_operation (fst (handle_disconnect request_sid sm)))"
proof -
  from assms have d: "distinct (map fst (active_users_per_operation sm))"
    by (simp add: presence_inv_def)
  show ?thesis using assms presence_inv_presence_after[OF assms]
    by (simp add: handle_disconnect_def update_active_users_eq[OF d] Let_def
        split: option.split)
qed

lemma presence_inv_start:
  "active_users_per_operation (fst (handle_start_event st request_sid tok sm)) =
   active_users_per_operation sm"
  by (simp add: handle_start_event_def Let_def split: option.split)

lemma active_ops_filter_le:
  "length (active_ops u (filter P d)) \<le> length (active_ops u d)"
  by (induction d) (auto simp: active_ops_def)

lemma active_ops_shrink_le:
  "(\<forall>(k, s) \<in> set d. k = op \<longrightarrow> u \<in> v \<longrightarrow> u \<in> s) \<Longrightarrow>
   length (active_ops u (map (\<lambda>(k', v'). if k' = op then (k', v) else (k', v')) d))
     \<le> length (active_ops u d)"
  by (induction d) (auto simp: active_ops_def split: if_splits)

lemma keys_replace_map:
  "fst \<circ> (\<lambda>(k', v'). if k' = op then (k', v) else (k', v')) = fst"
  by (auto simp: fun_eq_iff)

lemma presence_inv_remove:
  assumes "presence_inv d"
  shows "presence_inv (fst (remove_active_user_id_from_specific_operation uid op d))"
proof (cases "map_of d op")
  case None
  then show ?thesis using assms by (simp add: remove_active_user_id_from_specific_operation_def)
next
  case (Some us)
  from assms have dd: "distinct (map fst d)" by (simp add: presence_inv_def)
  have mem: "op \<in> fst ` set d" using map_of_SomeD[OF Some] by (force simp: image_iff)
  have only: "\<forall>(k, s) \<in> set d. k = op \<longrightarrow> s = us"
  proof (clarify)
    fix s assume "(op, s) \<in> set d"
    from map_of_is_SomeI[OF dd this] Some show "s = us" by simp
  qed
  have shrink: "\<And>u. \<forall>(k, s) \<in> set d. k = op \<longrightarrow> u \<in> us - {uid} \<longrightarrow> u \<in> s"
    using only by auto
  have st: "presence_inv (dict_store d op (us - {uid}))"
    unfolding presence_inv_def
  proof (intro conjI allI)
    show "distinct (map fst (dict_store d op (us - {uid})))"
      using dd mem by (simp add: dict_store_def keys_replace_map)
    fix u
    have "length (active_ops u (dict_store d op (us - {uid}))) \<le> length (active_ops u d)"
      using mem active_ops_shrink_le[OF shrink, of u] by (simp add: dict_store_def)
    also have "\<dots> \<le> 1" using assms by (simp add: presence_inv_def)
    finally show "length (active_ops u (dict_store d op (us - {uid}))) \<le> 1" .
  qed
  have dl: "presence_inv (dict_del d op)"
    unfolding presence_inv_def dict_del_def
  proof (intro conjI allI)
    show "distinct (map fst (filter (\<lambda>(k', _). k' \<noteq> op) d))"
      using dd by (simp add: distinct_map_filter)
    fix u
    have "length (active_ops u (filter (\<lambda>(k', _). k' \<noteq> op) d)) \<le> length (active_ops u d)"
      by (rule active_ops_filter_le)
    also have "\<dots> \<le> 1" using assms by (simp add: presence_inv_def)
    finally show "length (active_ops u (filter (\<lambda>(k', _). k' \<noteq> op) d)) \<le> 1" .
  qed
  show ?thesis using Some assms st dl
    by (simp add: remove_active_user_id_from_specific_operation_def Let_def)
qed

lemma presence_inv_handle:
  "presence_inv (active_users_per_operation sm) \<Longrightarrow>
   presence_inv (active_users_per_operation (fst (handle st e sm)))"
proof (cases e)
  case (RemoveFromOperation uid op)
  assume "presence_inv (active_users_per_operation sm)"
  from presence_inv_remove[OF this, of uid op] show ?thesis
    by (simp add: RemoveFromOperation case_prod_beta)
qed (simp_all add: presence_inv_selected presence_inv_disconnect presence_inv_start)

lemma presence_inv_run:
  "presence_inv (active_users_per_operation sm) \<Longrightarrow>
   presence_inv (active_users_per_operation (run evs sm))"
  by (induction evs arbitrary: sm) (auto simp: presence_inv_handle)

lemma presence_inv_init: "presence_inv (active_users_per_operation init_sm)"
  by (simp add: presence_inv_def init_sm_def active_ops_def)

lemma presence_inv_reached: "presence_inv (active_users_per_operation (run evs init_sm))"
  by (rule presence_inv_run[OF presence_inv_init])

lemma active_ops_set:
  "set (active_ops uid d) = {k. \<exists>s. (k, s) \<in> set d \<and> uid \<in> s}"
  by (auto simp: active_ops_def image_iff)

lemma presence_inv_unique:
  assumes "presence_inv d" "map_of d op = Some us" "uid \<in> us" "map_of d k = Some s" "uid \<in> s"
  shows "k = op"
proof -
  have a: "op \<in> set (active_ops uid d)"
    using map_of_SomeD[OF assms(2)] assms(3) by (auto simp: active_ops_set)
  have b: "k \<in> set (active_ops uid d)"
    using map_of_SomeD[OF assms(4)] assms(5) by (auto simp: active_ops_set)
  have l: "length (active_ops uid d) \<le> 1" using assms(1) by (simp add: presence_inv_def)
  then obtain x where "set (active_ops uid d) \<subseteq> {x}"
    by (cases "active_ops uid d") auto
  with a b show ?thesis by auto
qed

lemma map_of_map_at:
  "map_of (map (\<lambda>(k', s). if k' = op then (k', f s) else (k', s)) d) k =
     (if k = op then map_option f (map_of d k) else map_of d k)"
  by (induction d) auto

lemma reselect_map_of:
  assumes inv: "presence_inv (active_users_per_operation sm)"
    and ver: "verify_auth_token st (sel_token j) = Some user"
    and cur: "map_of (active_users_per_operation sm) (sel_op_id j) = Some us"
    and mem: "user_id user \<in> us"
  shows "map_of (active_users_per_operation (fst (handle_operation_selected st j sm))) =
         map_of (active_users_per_operation sm)"
proof
  fix k
  let ?d = "active_users_per_operation sm"
  let ?uid = "user_id user"
  let ?op = "sel_op_id j"
  let ?d1 = "presence_after ?uid ?d"
  from inv have dd: "distinct (map fst ?d)" by (simp add: presence_inv_def)
  have m1: "\<And>k. map_of ?d1 k =
     (case map_of ?d k of None \<Rightarrow> None
      | Some s \<Rightarrow> if s = {?uid} then None else Some (s - {?uid}))"
    by (rule map_of_presence_after[OF dd])
  have other: "map_of ?d1 k = map_of ?d k" if "k \<noteq> ?op"
  proof (cases "map_of ?d k")
    case None
    then show ?thesis by (simp add: m1)
  next
    case (Some s)
    have "?uid \<notin> s" using presence_inv_unique[OF inv cur mem Some] that by auto
    then have "s \<noteq> {?uid}" "s - {?uid} = s" by auto
    then show ?thesis using Some by (simp add: m1)
  qed
  have key: "?op \<in> fst ` set ?d1 \<longleftrightarrow> us \<noteq> {?uid}"
  proof -
    have "?op \<in> fst ` set ?d1 \<longleftrightarrow> map_of ?d1 ?op \<noteq> None"
      by (simp add: map_of_eq_None_iff)
    also have "\<dots> \<longleftrightarrow> us \<noteq> {?uid}" using cur by (simp add: m1)
    finally show ?thesis .
  qed
  have ins: "insert ?uid (us - {?uid}) = us" using mem by auto
  show "map_of (active_users_per_operation (fst (handle_operation_selected st j sm))) k =
        map_of ?d k"
  proof (cases "us = {?uid}")
    case True
    then have nk: "?op \<notin> fst ` set ?d1" using key by simp
    have none: "map_of ?d1 ?op = None" using nk by (simp add: map_of_eq_None_iff)
    show ?thesis
    proof (cases "k = ?op")
      case t: True
      show ?thesis using nk none cur True
        by (simp add: selected_presence[OF dd ver] t map_add_def)
    next
      case False
      show ?thesis using nk other[OF False] False
        by (simp add: selected_presence[OF dd ver] map_add_def split: option.split)
    qed
  next
    case False
    then have ik: "?op \<in> fst ` set ?d1" using key by simp
    have some: "map_of ?d1 ?op = Some (us - {?uid})" using cur False by (simp add: m1)
    show ?thesis
    proof (cases "k = ?op")
      case t: True
      show ?thesis using ik some cur ins
        by (simp add: selected_presence[OF dd ver] t map_of_map_at)
    next
      case f: False
      show ?thesis using ik other[OF f] f
        by (simp add: selected_presence[OF dd ver] map_of_map_at)
    qed
  qed
qed

lemma only_entry:
  assumes "presence_inv d" "map_of d op = Some us" "uid \<in> us"
  shows "filter (\<lambda>(k, s). uid \<in> s) d = [(op, us)]"
proof -
  let ?xs = "filter (\<lambda>(k, s). uid \<in> s) d"
  have l: "length ?xs \<le> 1" using assms(1) by (simp add: presence_inv_def active_ops_def)
  have m: "(op, us) \<in> set ?xs" using map_of_SomeD[OF assms(2)] assms(3) by simp
  show ?thesis
  proof (cases ?xs)
    case Nil
    with m show ?thesis by simp
  next
    case (Cons x xs)
    with l have "xs = []" by simp
    with Cons m show ?thesis by simp
  qed
qed

lemma reselect_emissions:
  assumes inv: "presence_inv (active_users_per_operation sm)"
    and ver: "verify_auth_token st (sel_token j) = Some user"
    and cur: "map_of (active_users_per_operation sm) (sel_op_id j) = Some us"
    and mem: "user_id user \<in> us"
  shows "snd (handle_operation_selected st j sm) =
           [active_user_update (sel_op_id j) (card (us - {user_id user})),
            active_user_update (sel_op_id j) (card us)]"
proof -
  from inv have dd: "distinct (map fst (active_users_per_operation sm))"
    by (simp add: presence_inv_def)
  have m: "map_of (active_users_per_operation (fst (handle_operation_selected st j sm))) =
           map_of (active_users_per_operation sm)"
    by (rule reselect_map_of[OF inv ver cur mem])
  have g: "dict_get (active_users_per_operation (fst (handle_operation_selected st j sm)))
             (sel_op_id j) = us"
    by (simp add: dict_get_def m cur)
  have u: "updates_for (user_id user) (active_users_per_operation sm) =
           [active_user_update (sel_op_id j) (card (us - {user_id user}))]"
    by (simp add: updates_for_def only_entry[OF inv cur mem])
  have s: "snd (handle_operation_selected st j sm) =
        updates_for (user_id user) (active_users_per_operation sm) @
        [active_user_update (sel_op_id j)
           (card (dict_get (active_users_per_operation (fst (handle_operation_selected st j sm)))
              (sel_op_id j)))]"
    using ver by (simp add: handle_operation_selected_def update_active_users_eq[OF dd] Let_def)
  show ?thesis by (simp add: s g u)
qed

section \<open>The example data evaluated\<close>

lemma ex_verify:
  "verify_auth_token ex_store ''tokenA'' = Some \<lparr>user_id = 1, username = ''alice''\<rparr>"
  "verify_auth_token ex_store ''tokenB'' = Some \<lparr>user_id = 2, username = ''bob''\<rparr>"
  "verify_auth_token ex_store ''tokenC'' = Some \<lparr>user_id = 3, username = ''carol''\<rparr>"
  "verify_auth_token ex_store ''expired'' = None"
  by (simp_all add: verify_auth_token_def ex_store_def)

lemma ex_perm:
  "permission_check_emit ex_store 1 42" "\<not> permission_check_emit ex_store 2 42"
  "\<not> permission_check_emit ex_store 3 42"
  by (simp_all add: permission_check_emit_def first_permission_def ex_store_def)

lemma ex_sm_eval:
  "ex_sm = \<lparr>sockets = [\<lparr>s_id = ''sidA'', u_id = 1\<rparr>, \<lparr>s_id = ''sidB'', u_id = 2\<rparr>,
                        \<lparr>s_id = ''sidC'', u_id = 3\<rparr>],
            active_users_per_operation = [],
            rooms = {(''sidA'', 42), (''sidA'', 7), (''sidB'', 42)}\<rparr>"
  by (auto simp: ex_sm_def init_sm_def handle_start_event_def verify_auth_token_def ex_store_def
      join_room_def)

lemma ex_select_eval:
  "handle_operation_selected ex_store \<lparr>sel_token = ''tokenA'', sel_op_id = 42\<rparr> ex_sm =
     (ex_sm\<lparr>active_users_per_operation := [(42, {1})]\<rparr>, [active_user_update 42 1])"
  by (simp add: handle_operation_selected_def ex_verify ex_sm_eval update_active_users_def
      dict_store_def dict_get_def)

lemma ex_selected_eval:
  "ex_selected = \<lparr>sockets = [\<lparr>s_id = ''sidA'', u_id = 1\<rparr>, \<lparr>s_id = ''sidB'', u_id = 2\<rparr>,
                              \<lparr>s_id = ''sidC'', u_id = 3\<rparr>],
                  active_users_per_operation = [(42, {1})],
                  rooms = {(''sidA'', 42), (''sidA'', 7), (''sidB'', 42)}\<rparr>"
  by (simp add: ex_selected_def ex_select_eval) (simp add: ex_sm_eval)

lemma ex_run_eval:
  "run [(ex_store, OperationSelected \<lparr>sel_token = ''tokenA'', sel_op_id = 42\<rparr>),
        (ex_store, OperationSelected \<lparr>sel_token = ''tokenB'', sel_op_id = 42\<rparr>)] init_sm
   = \<lparr>sockets = [], active_users_per_operation = [(42, {1, 2})], rooms = {}\<rparr>"
  by (simp add: handle_operation_selected_def ex_verify init_sm_def update_active_users_def
      dict_store_def dict_get_def insert_commute)

section \<open>Who receives an emission\<close>

lemma loop_broadcast:
  "\<forall>e \<in> set es. em_to e = None \<Longrightarrow>
   \<forall>e \<in> set (snd (update_active_users_loop uid items d es)). em_to e = None"
  by (induction uid items d es rule: update_active_users_loop.induct)
     (auto simp: Let_def active_user_update_def socketio_emit_def)

lemma update_active_users_broadcast:
  "\<forall>e \<in> set (snd (update_active_users uid d)). em_to e = None"
  using loop_broadcast[of "[]" uid d d] by (simp add: update_active_users_def)

lemma selected_broadcast:
  "\<forall>e \<in> set (snd (handle_operation_selected st j sm)). em_to e = None"
  using update_active_users_broadcast[of "user_id (the (verify_auth_token st (sel_token j)))"
      "active_users_per_operation sm"]
  by (auto simp: handle_operation_selected_def Let_def case_prod_beta active_user_update_def
      socketio_emit_def split: option.split)

lemma disconnect_broadcast:
  "\<forall>e \<in> set (snd (handle_disconnect request_sid sm)). em_to e = None"
proof (cases "get_user_id (sockets sm) request_sid")
  case None
  then show ?thesis by (simp add: handle_disconnect_def)
next
  case (Some uid)
  then show ?thesis
    using update_active_users_broadcast[of uid "active_users_per_operation sm"]
    by (simp add: handle_disconnect_def case_prod_beta)
qed

lemma recipients_broadcast: "em_to e = None \<Longrightarrow> recipients conns rms e = conns"
  by (simp add: recipients_def)

text \<open>
  C1, as stated, fails. Alice, bob and carol are connected; carol holds no permission on
  operation 42 and has joined no room. When alice selects operation 42 the handler emits
  \<open>active-user-update{42, 1}\<close> without a \<open>to\<close> argument, so carol's connection
  receives it although it is not in room 42. Likewise the \<open>revoke-permission{42, bob}\<close>
  event reaches alice's connection, while bob's own connection is \<open>sidB\<close>.
\<close>

theorem active_user_update_reaches_non_member:
  "snd (handle_operation_selected ex_store \<lparr>sel_token = ''tokenA'', sel_op_id = 42\<rparr> ex_sm)
     = [active_user_update 42 1]
   \<and> ''sidC'' \<in> recipients {''sidA'', ''sidB'', ''sidC''}
        (rooms (fst (handle_operation_selected ex_store
                       \<lparr>sel_token = ''tokenA'', sel_op_id = 42\<rparr> ex_sm)))
        (active_user_update 42 1)
   \<and> (''sidC'', 42) \<notin> rooms (fst (handle_operation_selected ex_store
                                     \<lparr>sel_token = ''tokenA'', sel_op_id = 42\<rparr> ex_sm))
   \<and> get_session_id (sockets ex_sm) 2 = Some ''sidB''
   \<and> ''sidA'' \<in> recipients {''sidA'', ''sidB'', ''sidC''} (rooms ex_sm)
        (hd (emit_revoke_permission 2 42))"
  by (simp add: ex_select_eval)
     (simp add: ex_sm_eval recipients_def active_user_update_def socketio_emit_def
       get_session_id_def emit_revoke_permission_def)

text \<open>
  C1, amended: every \<open>active-user-update\<close> emitted by the operation-selected and the
  disconnect handler, and the \<open>revoke-permission\<close> event, is emitted without a
  recipient and so is delivered to every connected client, whatever rooms the clients
  have joined (the code's comment: "Emit the updated count to all users").
\<close>

theorem emissions_reach_every_connection:
  "(\<forall>e \<in> set (snd (handle_operation_selected st j sm)). recipients conns rms e = conns)
   \<and> (\<forall>e \<in> set (snd (handle_disconnect request_sid sm)). recipients conns rms e = conns)
   \<and> (\<forall>e \<in> set (emit_revoke_permission uid op_id). recipients conns rms e = conns)"
  using selected_broadcast[of st j sm] disconnect_broadcast[of request_sid sm]
  by (auto simp: recipients_broadcast emit_revoke_permission_def socketio_emit_def)

text \<open>
  C1, witness: alice selects operation 42 and then disconnects, and bob's permission is
  revoked; each event goes to all connections of the moment.
\<close>

theorem emissions_reach_every_connection_witness:
  "snd (handle_operation_selected ex_store \<lparr>sel_token = ''tokenA'', sel_op_id = 42\<rparr> ex_sm)
     = [active_user_update 42 1]
   \<and> recipients {''sidA'', ''sidB'', ''sidC''} (rooms ex_sm) (active_user_update 42 1)
     = {''sidA'', ''sidB'', ''sidC''}
   \<and> snd (handle_disconnect ''sidA'' ex_selected) = [active_user_update 42 0]
   \<and> recipients {''sidB'', ''sidC''} (rooms ex_sm) (active_user_update 42 0)
     = {''sidB'', ''sidC''}
   \<and> recipients {''sidA'', ''sidB'', ''sidC''} (rooms ex_sm) (hd (emit_revoke_permission 2 42))
     = {''sidA'', ''sidB'', ''sidC''}"
proof -
  have d: "snd (handle_disconnect ''sidA'' ex_selected) = [active_user_update 42 0]"
    by (simp add: ex_selected_def ex_select_eval)
       (simp add: handle_disconnect_def ex_sm_eval get_user_id_def update_active_users_def
         dict_del_def)
  show ?thesis
    using emissions_reach_every_connection[of ex_store
        "\<lparr>sel_token = ''tokenA'', sel_op_id = 42\<rparr>" ex_sm "{''sidA'', ''sidB'', ''sidC''}"
        "rooms ex_sm" "''sidA''" 2 42]
      emissions_reach_every_connection[of ex_store
        "\<lparr>sel_token = ''tokenA'', sel_op_id = 42\<rparr>" ex_selected "{''sidB'', ''sidC''}"
        "rooms ex_sm" "''sidA''" 2 42]
    by (simp add: ex_select_eval d emit_revoke_permission_def)
qed

section \<open>At most one presence set per user\<close>

text \<open>
  C2: after every prefix of every sequence of events from the initial state
  (operation-selected events, and also start, disconnect and removal from one
  operation), the presence dict has distinct keys and every user id occurs in the set of
  at most one operation. Handling operation-selected for a verified user leaves that
  user in the set of the selected operation and in no other.
\<close>

theorem user_in_at_most_one_presence_set:
  "distinct (map fst (active_users_per_operation (run (take n evs) init_sm)))
   \<and> length (active_ops u (active_users_per_operation (run (take n evs) init_sm))) \<le> 1
   \<and> (verify_auth_token st (sel_token j) = Some user \<longrightarrow>
        active_ops (user_id user)
          (active_users_per_operation (fst (handle_operation_selected st j (run evs init_sm))))
        = [sel_op_id j])"
proof -
  have a: "presence_inv (active_users_per_operation (run (take n evs) init_sm))"
    by (rule presence_inv_reached)
  have b: "distinct (map fst (active_users_per_operation (run evs init_sm)))"
    using presence_inv_reached[of evs] by (simp add: presence_inv_def)
  show ?thesis using a by (simp add: presence_inv_def selected_active_ops[OF b])
qed

text \<open>
  C2, witness: alice and bob select operation 42, then alice selects operation 7; she
  leaves the set of 42 and is in the set of 7 only.
\<close>

theorem user_in_at_most_one_presence_set_witness:
  "verify_auth_token ex_store ''tokenA'' = Some \<lparr>user_id = 1, username = ''alice''\<rparr>
   \<and> active_users_per_operation
        (fst (handle_operation_selected ex_store \<lparr>sel_token = ''tokenA'', sel_op_id = 7\<rparr>
           (run [(ex_store, OperationSelected \<lparr>sel_token = ''tokenA'', sel_op_id = 42\<rparr>),
                 (ex_store, OperationSelected \<lparr>sel_token = ''tokenB'', sel_op_id = 42\<rparr>)]
              init_sm)))
       = [(42, {2}), (7, {1})]
   \<and> active_ops 1
        (active_users_per_operation
           (fst (handle_operation_selected ex_store \<lparr>sel_token = ''tokenA'', sel_op_id = 7\<rparr>
              (run [(ex_store, OperationSelected \<lparr>sel_token = ''tokenA'', sel_op_id = 42\<rparr>),
                    (ex_store, OperationSelected \<lparr>sel_token = ''tokenB'', sel_op_id = 42\<rparr>)]
                 init_sm))))
       = [7]"
proof -
  have v: "verify_auth_token ex_store (sel_token \<lparr>sel_token = ''tokenA'', sel_op_id = 7\<rparr>)
           = Some \<lparr>user_id = 1, username = ''alice''\<rparr>"
    by (simp add: ex_verify)
  have e: "active_users_per_operation
        (fst (handle_operation_selected ex_store \<lparr>sel_token = ''tokenA'', sel_op_id = 7\<rparr>
           \<lparr>sockets = [], active_users_per_operation = [(42, {1, 2})], rooms = {}\<rparr>))
       = [(42, {2}), (7, {1})]"
    by (simp add: handle_operation_selected_def ex_verify update_active_users_def
      dict_store_def dict_get_def)
  show ?thesis
    using v e
      user_in_at_most_one_presence_set[of 2
        "[(ex_store, OperationSelected \<lparr>sel_token = ''tokenA'', sel_op_id = 42\<rparr>),
          (ex_store, OperationSelected \<lparr>sel_token = ''tokenB'', sel_op_id = 42\<rparr>)]"
        1 ex_store "\<lparr>sel_token = ''tokenA'', sel_op_id = 7\<rparr>"
        "\<lparr>user_id = 1, username = ''alice''\<rparr>"]
    by (simp del: run.simps add: ex_verify ex_run_eval)
qed

section \<open>Chat messages\<close>

text \<open>
  C3: a chat-message event from a verified user whose permission on the operation is
  absent or has access level viewer returns the store unchanged and emits nothing,
  whatever the chat manager would do: it is not called.
\<close>

theorem chat_message_without_emit_permission_is_dropped:
  assumes "verify_auth_token st (mj_token j) = Some user"
    and "case first_permission st (user_id user) (mj_op_id j) of
           None \<Rightarrow> True
         | Some p \<Rightarrow> access_level p = ''viewer''"
  shows "handle_message cm_add_message st j = Inr (st, [])"
  using assms
  by (simp add: handle_message_def permission_check_emit_def split: option.splits)

text \<open>
  C3, witness: bob, a viewer of operation 42, sends a chat message.
\<close>

theorem chat_message_without_emit_permission_is_dropped_witness:
  "verify_auth_token ex_store ''tokenB'' = Some \<lparr>user_id = 2, username = ''bob''\<rparr>
   \<and> first_permission ex_store 2 42
       = Some \<lparr>perm_op_id = 42, perm_u_id = 2, access_level = ''viewer''\<rparr>
   \<and> handle_message ChatManager_add_message ex_store
        \<lparr>mj_token = ''tokenB'', mj_op_id = 42, mj_reply_id = - 1, mj_message_text = ''hello''\<rparr>
       = Inr (ex_store, [])"
proof -
  have v: "verify_auth_token ex_store
             (mj_token \<lparr>mj_token = ''tokenB'', mj_op_id = 42, mj_reply_id = - 1,
                        mj_message_text = ''hello''\<rparr>)
           = Some \<lparr>user_id = 2, username = ''bob''\<rparr>"
    by (simp add: ex_verify)
  have p: "first_permission ex_store 2 42
           = Some \<lparr>perm_op_id = 42, perm_u_id = 2, access_level = ''viewer''\<rparr>"
    by (simp add: first_permission_def ex_store_def)
  show ?thesis
    using chat_message_without_emit_permission_is_dropped[OF v, of ChatManager_add_message] p
    by (simp add: ex_verify)
qed

text \<open>
  C7: for a chat-message event of a verified user with emit permission, whose message the
  chat manager creates and \<open>get_message_dict\<close> serialises, the handler emits exactly
  one event with the serialised message: \<open>chat-message-client\<close> when \<open>reply_id\<close> is
  \<open>-1\<close>, \<open>chat-message-reply-client\<close> otherwise.
\<close>

theorem chat_message_event_by_reply_id:
  assumes "verify_auth_token st (mj_token j) = Some user"
    and "permission_check_emit st (user_id user) (mj_op_id j)"
    and "cm_add_message st user (mj_message_text j) (mj_op_id j) None (Some (mj_reply_id j))
           = Inr (m, st')"
    and "get_message_dict st' m = Inr new_message_dict"
  shows "handle_message cm_add_message st j =
           Inr (st', [socketio_emit
                        (if mj_reply_id j = - 1 then ''chat-message-client''
                         else ''chat-message-reply-client'') new_message_dict])"
  using assms by (simp add: handle_message_def)

text \<open>
  C7, witness: alice, creator of operation 42, sends a top-level message and a reply to
  message 1.
\<close>

theorem chat_message_event_by_reply_id_witness:
  "verify_auth_token ex_store ''tokenA'' = Some \<lparr>user_id = 1, username = ''alice''\<rparr>
   \<and> permission_check_emit ex_store 1 42
   \<and> map_sum id (\<lambda>(st', es). (map msg_reply_id (messages st'), map em_event es))
        (handle_message ChatManager_add_message ex_store (ex_chat ''tokenA'' (- 1)))
       = Inr ([None, Some 1, Some 2, None], [''chat-message-client''])
   \<and> map_sum id (\<lambda>(st', es). (map msg_reply_id (messages st'), map em_event es))
        (handle_message ChatManager_add_message ex_store (ex_chat ''tokenA'' 1))
       = Inr ([None, Some 1, Some 2, Some 1], [''chat-message-reply-client''])"
proof -
  let ?u = "\<lparr>user_id = 1, username = ''alice''\<rparr>"
  have v: "\<And>r. verify_auth_token ex_store (mj_token (ex_chat ''tokenA'' r)) = Some ?u"
    by (simp add: ex_chat_def ex_verify)
  have p: "\<And>r. permission_check_emit ex_store (user_id ?u) (mj_op_id (ex_chat ''tokenA'' r))"
    by (simp add: ex_chat_def ex_perm)
  have c: "\<And>r. \<exists>m st' d.
      ChatManager_add_message ex_store ?u (mj_message_text (ex_chat ''tokenA'' r))
        (mj_op_id (ex_chat ''tokenA'' r)) None (Some (mj_reply_id (ex_chat ''tokenA'' r)))
        = Inr (m, st')
      \<and> get_message_dict st' m = Inr d
      \<and> map msg_reply_id (messages st')
          = [None, Some 1, Some 2, if r = - 1 then None else Some r]"
    by (simp add: ChatManager_add_message_def Let_def get_message_dict_def ex_chat_def
        ex_store_def ex_messages_def)
  have r: "map_sum id (\<lambda>(st', es). (map msg_reply_id (messages st'), map em_event es))
        (handle_message ChatManager_add_message ex_store (ex_chat ''tokenA'' r))
       = Inr ([None, Some 1, Some 2, if r = - 1 then None else Some r],
              [if r = - 1 then ''chat-message-client'' else ''chat-message-reply-client''])" for r
  proof -
    from c[of r] obtain m st' d where
      a: "ChatManager_add_message ex_store ?u (mj_message_text (ex_chat ''tokenA'' r))
        (mj_op_id (ex_chat ''tokenA'' r)) None (Some (mj_reply_id (ex_chat ''tokenA'' r)))
        = Inr (m, st')"
      and g: "get_message_dict st' m = Inr d"
      and l: "map msg_reply_id (messages st')
          = [None, Some 1, Some 2, if r = - 1 then None else Some r]"
      by (elim exE conjE)
    show ?thesis
      using chat_message_event_by_reply_id[where cm_add_message = ChatManager_add_message,
          OF v[of r] p[of r] a g] l
      by (simp add: socketio_emit_def ex_chat_def)
  qed
  show ?thesis using r[of "- 1"] r[of 1] by (simp add: ex_verify ex_perm)
qed

section \<open>Saving the document\<close>

lemma verify_user:
  assumes "verify_auth_token st tok = Some user"
  shows "find (\<lambda>u. user_id u = user_id user) (users st) = Some user"
proof -
  from assms obtain i where f: "find (\<lambda>u. user_id u = i) (users st) = Some user"
    by (auto simp: verify_auth_token_def split: option.splits)
  then have "user_id user = i" by (auto simp: find_Some_iff)
  with f show ?thesis by simp
qed

lemma file_save_generic:
  assumes "verify_auth_token st (fs_token j) = Some user"
    and "permission_check_emit st (user_id user) (fs_op_id j)"
  shows "(fm st (fs_op_id j) (fs_content j) user (fs_version_name j)
             (case fs_comment j of None \<Rightarrow> [] | Some c \<Rightarrow> c) = Inr (False, st1)
          \<longrightarrow> handle_file_save fm cm st j = Inr (st1, []))
       \<and> (fm st (fs_op_id j) (fs_content j) user (fs_version_name j)
             (case fs_comment j of None \<Rightarrow> [] | Some c \<Rightarrow> c) = Inl e
          \<longrightarrow> handle_file_save fm cm st j = Inl e)"
  using assms by (simp add: handle_file_save_def Let_def)

lemma file_save_available:
  assumes ver: "verify_auth_token st (fs_token j) = Some user"
    and perm: "permission_check_emit st (user_id user) (fs_op_id j)"
    and av: "available st"
  shows "\<exists>c m d st'.
           handle_file_save FileManager_save_file ChatManager_add_message st j =
             Inr (st', [socketio_emit ''chat-message-client'' d,
                        file_changed (fs_op_id j) (user_id user)])
         \<and> changes st' = changes st @ [c]
         \<and> chg_op_id c = fs_op_id j \<and> chg_u_id c = user_id user
         \<and> documents st' (fs_op_id j) = Some (fs_content j)
         \<and> messages st' = messages st @ [m]
         \<and> msg_type m = SYSTEM_MESSAGE \<and> msg_op_id m = fs_op_id j
         \<and> get_message_dict st' m = Inr d"
proof -
  let ?comment = "case fs_comment j of None \<Rightarrow> [] | Some c \<Rightarrow> c"
  let ?c = "\<lparr>chg_id = next_id (map chg_id (changes st)), chg_op_id = fs_op_id j,
             chg_u_id = user_id user, chg_commit_hash = hash_blob st (fs_content j),
             chg_version_name = fs_version_name j, chg_comment = Some ?comment\<rparr>"
  let ?st1 = "st\<lparr>changes := changes st @ [?c],
                  documents := (documents st)(fs_op_id j \<mapsto> fs_content j)\<rparr>"
  let ?m = "\<lparr>msg_id = next_id (map msg_id (messages st)), msg_op_id = fs_op_id j,
             msg_u_id = user_id user,
             msg_text = service_message user (fs_messageText j),
             msg_type = SYSTEM_MESSAGE, msg_reply_id = None, msg_created_at = now st\<rparr>"
  let ?st2 = "?st1\<lparr>messages := messages st @ [?m]\<rparr>"
  have s: "FileManager_save_file st (fs_op_id j) (fs_content j) user (fs_version_name j) ?comment
           = Inr (True, ?st1)"
    using av by (simp add: FileManager_save_file_def Let_def)
  have a: "ChatManager_add_message ?st1 user (service_message user (fs_messageText j))
             (fs_op_id j) (Some SYSTEM_MESSAGE) None = Inr (?m, ?st2)"
    using av by (simp add: ChatManager_add_message_def Let_def)
  obtain d where d: "get_message_dict ?st2 ?m = Inr d"
    using verify_user[OF ver] by (simp add: get_message_dict_def)
  have h: "handle_file_save FileManager_save_file ChatManager_add_message st j =
             Inr (?st2, [socketio_emit ''chat-message-client'' d,
                         file_changed (fs_op_id j) (user_id user)])"
    using ver perm s a d by (simp add: handle_file_save_def Let_def)
  show ?thesis
    by (rule exI[of _ ?c], rule exI[of _ ?m], rule exI[of _ d], rule exI[of _ ?st2])
       (simp add: h d)
qed

lemma file_save_unavailable:
  assumes ver: "verify_auth_token st (fs_token j) = Some user"
    and perm: "permission_check_emit st (user_id user) (fs_op_id j)"
    and av: "\<not> available st"
  shows "handle_file_save FileManager_save_file ChatManager_add_message st j = Inl StoreFailure"
  using assms by (simp add: handle_file_save_def Let_def FileManager_save_file_def)

lemma file_save_denied:
  assumes ver: "verify_auth_token st (fs_token j) = Some user"
    and perm: "\<not> permission_check_emit st (user_id user) (fs_op_id j)"
  shows "handle_file_save fm cm st j = Inr (st, [])"
  using assms by (simp add: handle_file_save_def Let_def)

text \<open>
  C4: for a file-save event of a verified user. With emit permission and the store
  available, the save appends exactly one Change record and stores the content, and the
  handler emits exactly two events, in this order: \<open>chat-message-client\<close> with the
  new system message, then \<open>file-changed\<close>. With the store unavailable the handler
  raises and emits nothing. For any file manager: when \<open>save_file\<close> returns false or
  raises, or when the permission check fails, nothing is emitted (and on a failed
  permission check the file manager is not called).
\<close>

theorem file_save_persists_then_notifies:
  assumes "verify_auth_token st (fs_token j) = Some user"
  shows "(permission_check_emit st (user_id user) (fs_op_id j) \<and> available st \<longrightarrow>
           (\<exists>c m d st'.
              handle_file_save FileManager_save_file ChatManager_add_message st j =
                Inr (st', [socketio_emit ''chat-message-client'' d,
                           file_changed (fs_op_id j) (user_id user)])
            \<and> changes st' = changes st @ [c]
            \<and> chg_op_id c = fs_op_id j \<and> chg_u_id c = user_id user
            \<and> documents st' (fs_op_id j) = Some (fs_content j)
            \<and> messages st' = messages st @ [m]
            \<and> msg_type m = SYSTEM_MESSAGE \<and> msg_op_id m = fs_op_id j
            \<and> get_message_dict st' m = Inr d))
       \<and> (permission_check_emit st (user_id user) (fs_op_id j) \<and> \<not> available st \<longrightarrow>
            handle_file_save FileManager_save_file ChatManager_add_message st j
              = Inl StoreFailure)
       \<and> (permission_check_emit st (user_id user) (fs_op_id j)
            \<and> fm st (fs_op_id j) (fs_content j) user (fs_version_name j)
                 (case fs_comment j of None \<Rightarrow> [] | Some c \<Rightarrow> c) = Inr (False, st1)
          \<longrightarrow> handle_file_save fm cm st j = Inr (st1, []))
       \<and> (permission_check_emit st (user_id user) (fs_op_id j)
            \<and> fm st (fs_op_id j) (fs_content j) user (fs_version_name j)
                 (case fs_comment j of None \<Rightarrow> [] | Some c \<Rightarrow> c) = Inl e
          \<longrightarrow> handle_file_save fm cm st j = Inl e)
       \<and> (\<not> permission_check_emit st (user_id user) (fs_op_id j) \<longrightarrow>
            handle_file_save fm cm st j = Inr (st, []))"
  using file_save_available[OF assms] file_save_unavailable[OF assms]
    file_save_generic[OF assms, of fm st1 cm e] file_save_denied[OF assms, of fm cm]
  by blast

text \<open>
  C4, witness: alice saves the document of operation 42; the same with the store
  unavailable; bob, a viewer, tries to save.
\<close>

theorem file_save_persists_then_notifies_witness:
  "verify_auth_token ex_store (fs_token ex_save) = Some \<lparr>user_id = 1, username = ''alice''\<rparr>
   \<and> permission_check_emit ex_store 1 42 \<and> available ex_store
   \<and> map_sum id (\<lambda>(st', es). (length (changes st'), map msg_type (messages st'), map em_event es))
        (handle_file_save FileManager_save_file ChatManager_add_message ex_store ex_save)
       = Inr (1, [TEXT, TEXT, TEXT, SYSTEM_MESSAGE], [''chat-message-client'', ''file-changed''])
   \<and> handle_file_save FileManager_save_file ChatManager_add_message
        (ex_store\<lparr>available := False\<rparr>) ex_save = Inl StoreFailure
   \<and> handle_file_save FileManager_save_file ChatManager_add_message ex_store
        (ex_save\<lparr>fs_token := ''tokenB''\<rparr>) = Inr (ex_store, [])"
proof -
  have v: "verify_auth_token ex_store (fs_token ex_save)
           = Some \<lparr>user_id = 1, username = ''alice''\<rparr>"
    by (simp add: ex_save_def ex_verify)
  have e: "map_sum id (\<lambda>(st', es). (length (changes st'), map msg_type (messages st'), map em_event es))
        (handle_file_save FileManager_save_file ChatManager_add_message ex_store ex_save)
       = Inr (1, [TEXT, TEXT, TEXT, SYSTEM_MESSAGE], [''chat-message-client'', ''file-changed''])"
    by (simp add: handle_file_save_def ex_save_def ex_verify ex_perm FileManager_save_file_def
        ChatManager_add_message_def get_message_dict_def socketio_emit_def file_changed_def
        Let_def)
       (simp add: ex_store_def ex_messages_def socketio_emit_def file_changed_def)
  have u: "handle_file_save FileManager_save_file ChatManager_add_message
        (ex_store\<lparr>available := False\<rparr>) ex_save = Inl StoreFailure"
    by (simp add: handle_file_save_def ex_save_def verify_auth_token_def
        permission_check_emit_def first_permission_def FileManager_save_file_def ex_store_def)
  have b: "handle_file_save FileManager_save_file ChatManager_add_message ex_store
        (ex_save\<lparr>fs_token := ''tokenB''\<rparr>) = Inr (ex_store, [])"
    by (simp add: handle_file_save_def ex_save_def ex_verify ex_perm)
  show ?thesis
    using file_save_persists_then_notifies[OF v] e u b
    by (simp add: ex_perm v) (simp add: ex_store_def)
qed

section \<open>The start event\<close>

lemma foldl_join_room:
  "foldl (\<lambda>r p. join_room request_sid (f p) r) rms ps = rms \<union> (\<lambda>p. (request_sid, f p)) ` set ps"
  by (induction ps arbitrary: rms) (auto simp: join_room_def)

text \<open>
  C5: on a start event with a token that verifies, the connection joins the room of every
  operation for which the user has a permission row, whatever its access level, the pair
  of connection id and user id is appended to the registry, and nothing is emitted; with
  a token that does not verify the state is unchanged and nothing is emitted.
\<close>

theorem start_event_joins_permitted_rooms:
  "(verify_auth_token st tok = Some user \<longrightarrow>
      handle_start_event st request_sid tok sm =
        (sm\<lparr>rooms := rooms sm \<union>
                 (\<lambda>p. (request_sid, perm_op_id p)) `
                   set (filter (\<lambda>p. perm_u_id p = user_id user) (permissions st)),
             sockets := sockets sm @ [\<lparr>s_id = request_sid, u_id = user_id user\<rparr>]\<rparr>, []))
   \<and> (verify_auth_token st tok = None \<longrightarrow> handle_start_event st request_sid tok sm = (sm, []))"
  by (simp add: handle_start_event_def foldl_join_room Let_def)

text \<open>
  C5, witness: alice starts on a fresh server and joins the rooms of operations 42 and 7;
  an expired token changes nothing.
\<close>

theorem start_event_joins_permitted_rooms_witness:
  "verify_auth_token ex_store ''tokenA'' = Some \<lparr>user_id = 1, username = ''alice''\<rparr>
   \<and> handle_start_event ex_store ''sidA'' ''tokenA'' init_sm =
       (\<lparr>sockets = [\<lparr>s_id = ''sidA'', u_id = 1\<rparr>], active_users_per_operation = [],
         rooms = {(''sidA'', 42), (''sidA'', 7)}\<rparr>, [])
   \<and> verify_auth_token ex_store ''expired'' = None
   \<and> handle_start_event ex_store ''sidX'' ''expired'' ex_sm = (ex_sm, [])"
proof -
  have e: "handle_start_event ex_store ''sidA'' ''tokenA'' init_sm =
       (\<lparr>sockets = [\<lparr>s_id = ''sidA'', u_id = 1\<rparr>], active_users_per_operation = [],
         rooms = {(''sidA'', 42), (''sidA'', 7)}\<rparr>, [])"
    by (auto simp: handle_start_event_def verify_auth_token_def init_sm_def join_room_def
        ex_store_def)
  show ?thesis
    using start_event_joins_permitted_rooms[of ex_store "''tokenA''"
            "\<lparr>user_id = 1, username = ''alice''\<rparr>" "''sidA''" init_sm]
          start_event_joins_permitted_rooms[of ex_store "''expired''" undefined "''sidX''" ex_sm]
    by (simp add: ex_verify e)
qed

section \<open>The admin check\<close>

text \<open>
  C6, on the code: with no permission row for the pair, \<open>permission_check_admin\<close> does
  not return \<open>False\<close> but raises \<open>AttributeError\<close>, while the sibling check
  \<open>permission_check_emit\<close> returns \<open>False\<close> on the same input. Carol has no permission
  on operation 42.
\<close>

theorem permission_check_admin_missing_row_raises:
  "permission_check_admin ex_store 3 42 = Inl AttributeError
   \<and> permission_check_emit ex_store 3 42 = False"
  by (simp add: permission_check_admin_def permission_check_emit_def first_permission_def
      ex_store_def)

section \<open>Disconnecting\<close>

lemma get_user_id_none:
  "request_sid \<notin> s_id ` set socks \<Longrightarrow>
   foldl (\<lambda>uid ss. if s_id ss = request_sid then Some (u_id ss) else uid) acc socks = acc"
  by (induction socks arbitrary: acc) auto

lemma get_user_id_filtered:
  "get_user_id (filter (\<lambda>d. s_id d \<noteq> request_sid) socks) request_sid = None"
  unfolding get_user_id_def by (rule get_user_id_none) auto

lemma disconnect_sockets:
  "sockets (fst (handle_disconnect request_sid sm)) =
   filter (\<lambda>d. s_id d \<noteq> request_sid) (sockets sm)"
  by (simp add: handle_disconnect_def Let_def case_prod_beta)

lemma disconnect_again:
  "handle_disconnect request_sid (fst (handle_disconnect request_sid sm)) =
     (fst (handle_disconnect request_sid sm), [])"
proof -
  obtain sm1 where sm1: "sm1 = fst (handle_disconnect request_sid sm)" by simp
  have s: "sockets sm1 = filter (\<lambda>d. s_id d \<noteq> request_sid) (sockets sm)"
    by (simp add: sm1 disconnect_sockets)
  have g: "get_user_id (sockets sm1) request_sid = None"
    by (simp add: s get_user_id_filtered)
  have f: "filter (\<lambda>d. s_id d \<noteq> request_sid) (sockets sm1) = sockets sm1"
    by (simp add: s)
  have "handle_disconnect request_sid sm1 = (sm1, [])"
    by (simp add: handle_disconnect_def g f)
  then show ?thesis by (simp add: sm1)
qed

lemma disconnect_presence:
  assumes "distinct (map fst (active_users_per_operation sm))"
    and "get_user_id (sockets sm) request_sid = Some uid" and "uid \<noteq> 0"
  shows "active_ops uid (active_users_per_operation (fst (handle_disconnect request_sid sm))) = []"
  using assms
  by (simp add: handle_disconnect_def update_active_users_eq active_ops_presence_after)

text \<open>
  C8: handling disconnect a second time for the same connection id leaves the whole
  state, presence dict and registry included, as the first handling left it, and emits
  nothing. After the first handling the registry has no entry for the connection id, and
  the user it was registered for (a non-zero id, in a dict with distinct keys) is in no
  presence set.
\<close>

theorem disconnect_is_idempotent:
  "handle_disconnect request_sid (fst (handle_disconnect request_sid sm))
     = (fst (handle_disconnect request_sid sm), [])
   \<and> request_sid \<notin> s_id ` set (sockets (fst (handle_disconnect request_sid sm)))
   \<and> (distinct (map fst (active_users_per_operation sm))
        \<and> get_user_id (sockets sm) request_sid = Some uid \<and> uid \<noteq> 0 \<longrightarrow>
      active_ops uid (active_users_per_operation (fst (handle_disconnect request_sid sm))) = [])"
  using disconnect_presence[of sm request_sid uid]
  by (auto simp: disconnect_again disconnect_sockets)

text \<open>
  C8, witness: alice, active in operation 42, disconnects twice.
\<close>

theorem disconnect_is_idempotent_witness:
  "distinct (map fst (active_users_per_operation ex_selected))
   \<and> get_user_id (sockets ex_selected) ''sidA'' = Some 1
   \<and> (1::int) \<noteq> 0
   \<and> handle_disconnect ''sidA'' ex_selected =
       (\<lparr>sockets = [\<lparr>s_id = ''sidB'', u_id = 2\<rparr>, \<lparr>s_id = ''sidC'', u_id = 3\<rparr>],
         active_users_per_operation = [],
         rooms = {(''sidA'', 42), (''sidA'', 7), (''sidB'', 42)}\<rparr>,
        [active_user_update 42 0])
   \<and> handle_disconnect ''sidA'' (fst (handle_disconnect ''sidA'' ex_selected))
       = (fst (handle_disconnect ''sidA'' ex_selected), [])
   \<and> active_ops 1 (active_users_per_operation (fst (handle_disconnect ''sidA'' ex_selected))) = []"
proof -
  have e: "handle_disconnect ''sidA'' ex_selected =
       (\<lparr>sockets = [\<lparr>s_id = ''sidB'', u_id = 2\<rparr>, \<lparr>s_id = ''sidC'', u_id = 3\<rparr>],
         active_users_per_operation = [],
         rooms = {(''sidA'', 42), (''sidA'', 7), (''sidB'', 42)}\<rparr>,
        [active_user_update 42 0])"
    by (simp add: ex_selected_eval handle_disconnect_def get_user_id_def update_active_users_def
        dict_del_def)
  have g: "get_user_id (sockets ex_selected) ''sidA'' = Some 1"
    by (simp add: ex_selected_eval get_user_id_def)
  have d: "distinct (map fst (active_users_per_operation ex_selected))"
    by (simp add: ex_selected_eval)
  show ?thesis
    using disconnect_is_idempotent[of "''sidA''" ex_selected 1] e g d
    by simp
qed

section \<open>Deleting messages\<close>

lemma cascade_subset: "set ids \<subseteq> set (cascade ms ids)"
proof (induction ms ids rule: cascade.induct)
  case (1 ms ids)
  show ?case
  proof (cases "replies_of ms ids = []")
    case True
    then show ?thesis by (simp add: cascade.simps)
  next
    case False
    with 1 have "set (ids @ replies_of ms ids) \<subseteq> set (cascade ms (ids @ replies_of ms ids))"
      by simp
    moreover have "cascade ms ids = cascade ms (ids @ replies_of ms ids)"
      using False by (subst cascade.simps) simp
    ultimately show ?thesis by auto
  qed
qed

lemma cascade_closed: "replies_of ms (cascade ms ids) = []"
proof (induction ms ids rule: cascade.induct)
  case (1 ms ids)
  show ?case
  proof (cases "replies_of ms ids = []")
    case True
    then show ?thesis by (simp add: cascade.simps)
  next
    case False
    have "cascade ms ids = cascade ms (ids @ replies_of ms ids)"
      using False by (subst cascade.simps) simp
    with 1 False show ?thesis by simp
  qed
qed

lemma replies_of_thread:
  "set ids \<subseteq> thread ms root \<Longrightarrow> set (replies_of ms ids) \<subseteq> thread ms root"
  by (auto simp: replies_of_def split: option.splits intro: thread.reply)

lemma cascade_in_thread:
  "set ids \<subseteq> thread ms root \<Longrightarrow> set (cascade ms ids) \<subseteq> thread ms root"
proof (induction ms ids rule: cascade.induct)
  case (1 ms ids)
  show ?case
  proof (cases "replies_of ms ids = []")
    case True
    then show ?thesis using "1.prems" by (simp add: cascade.simps)
  next
    case False
    have e: "cascade ms ids = cascade ms (ids @ replies_of ms ids)"
      using False by (subst cascade.simps) simp
    have "set (ids @ replies_of ms ids) \<subseteq> thread ms root"
      using "1.prems" replies_of_thread[OF "1.prems"] by simp
    from "1.IH"[OF False this] show ?thesis by (simp add: e)
  qed
qed

lemma closed_reply:
  assumes "replies_of ms ids = []" "m \<in> set ms" "msg_reply_id m = Some p" "p \<in> set ids"
  shows "msg_id m \<in> set ids"
proof (rule ccontr)
  assume "msg_id m \<notin> set ids"
  then have "msg_id m \<in> set (replies_of ms ids)"
    using assms(2-4) by (auto simp: replies_of_def)
  with assms(1) show False by simp
qed

lemma thread_in_cascade:
  assumes "x \<in> thread ms root"
  shows "x \<in> set (cascade ms [root])"
  using assms
proof (induction rule: thread.induct)
  case root
  show ?case using cascade_subset[of "[root]" ms] by simp
next
  case (reply m p)
  from closed_reply[OF cascade_closed reply.hyps(1,2) reply.IH] show ?case .
qed

lemma cascade_is_thread: "set (cascade ms [root]) = thread ms root"
  using cascade_in_thread[of "[root]" ms root] thread_in_cascade[of _ ms root]
  by (auto intro: thread.root)

lemma thread_no_replies:
  assumes "\<forall>x \<in> set ms. msg_reply_id x \<noteq> Some root"
  shows "thread ms root = {root}"
proof -
  have "x = root" if "x \<in> thread ms root" for x
    using that
  proof (induction rule: thread.induct)
    case root
    show ?case by simp
  next
    case (reply m p)
    with assms show ?case by auto
  qed
  then show ?thesis by (auto intro: thread.root)
qed

lemma ex_cascade: "cascade ex_messages [2] = [2, 3]" "cascade ex_messages [3] = [3]"
  by (simp_all add: cascade.simps replies_of_def ex_messages_def)

lemma ex_delete_eval:
  "handle_message_delete ChatManager_delete_message ex_store (ex_delete 2) =
     Inr (ex_store\<lparr>messages := [hd ex_messages]\<rparr>,
          [socketio_emit ''delete-message-client'' [(''message_id'', JInt 2)]])"
proof -
  have f: "find (\<lambda>m. msg_id m = 2) ex_messages = Some (ex_messages ! 1)"
    by (simp add: ex_messages_def)
  have g: "filter (\<lambda>x. msg_id x \<noteq> 2 \<and> msg_id x \<noteq> 3) ex_messages = [hd ex_messages]"
    by (simp add: ex_messages_def)
  have m: "messages ex_store = ex_messages" "available ex_store"
    by (simp_all add: ex_store_def)
  show ?thesis
    by (simp add: handle_message_delete_def ex_delete_def ex_verify ex_perm
        ChatManager_delete_message_def m f ex_cascade g)
qed

text \<open>
  C9, as stated, fails. Message 2 is a reply to message 1, and message 3 replies to
  message 2. Deleting message 2 deletes message 3 with it: only message 1 is left.
\<close>

theorem deleting_a_reply_deletes_its_replies:
  "map msg_reply_id (messages ex_store) = [None, Some 1, Some 2]
   \<and> map msg_id (messages ex_store) = [1, 2, 3]
   \<and> map_sum id (\<lambda>(st', es). map msg_id (messages st'))
        (handle_message_delete ChatManager_delete_message ex_store (ex_delete 2)) = Inr [1]"
  by (simp add: ex_delete_eval) (simp add: ex_store_def ex_messages_def)

text \<open>
  C9, amended: deleting an existing message \<open>m\<close> (by a verified user with emit
  permission, the store available) deletes exactly the messages of its reply thread:
  \<open>m\<close>, the messages whose \<open>reply_id\<close> is the id of \<open>m\<close>, and transitively their
  replies. So every direct reply of \<open>m\<close> is deleted, and when no message replies to
  \<open>m\<close> (as for a reply under the two-level convention) only \<open>m\<close> is deleted. One
  \<open>delete-message-client\<close> event is emitted.
\<close>

theorem delete_message_removes_reply_thread:
  assumes "verify_auth_token st (dj_token j) = Some user"
    and "permission_check_emit st (user_id user) (dj_op_id j)"
    and "available st"
    and "find (\<lambda>m. msg_id m = dj_message_id j) (messages st) = Some m"
  shows "\<exists>st'.
           handle_message_delete ChatManager_delete_message st j =
             Inr (st', [socketio_emit ''delete-message-client''
                          [(''message_id'', JInt (dj_message_id j))]])
         \<and> messages st' =
             filter (\<lambda>x. msg_id x \<notin> thread (messages st) (dj_message_id j)) (messages st)
         \<and> m \<notin> set (messages st')
         \<and> (\<forall>x \<in> set (messages st).
               msg_reply_id x = Some (dj_message_id j) \<longrightarrow> x \<notin> set (messages st'))
         \<and> ((\<forall>x \<in> set (messages st). msg_reply_id x \<noteq> Some (dj_message_id j)) \<longrightarrow>
               messages st' = filter (\<lambda>x. msg_id x \<noteq> dj_message_id j) (messages st))"
proof -
  let ?mid = "dj_message_id j"
  let ?st' = "st\<lparr>messages := filter (\<lambda>x. msg_id x \<notin> thread (messages st) ?mid) (messages st)\<rparr>"
  have h: "handle_message_delete ChatManager_delete_message st j =
             Inr (?st', [socketio_emit ''delete-message-client'' [(''message_id'', JInt ?mid)]])"
    using assms
    by (simp add: handle_message_delete_def ChatManager_delete_message_def cascade_is_thread)
  have mm: "msg_id m = ?mid" using assms(4) by (auto simp: find_Some_iff)
  have a: "m \<notin> set (messages ?st')" by (simp add: mm thread.root)
  have b: "\<forall>x \<in> set (messages st). msg_reply_id x = Some ?mid \<longrightarrow> x \<notin> set (messages ?st')"
    by (auto intro: thread.reply thread.root)
  have c: "(\<forall>x \<in> set (messages st). msg_reply_id x \<noteq> Some ?mid) \<longrightarrow>
             messages ?st' = filter (\<lambda>x. msg_id x \<noteq> ?mid) (messages st)"
    by (auto simp: thread_no_replies)
  show ?thesis
    by (rule exI[of _ ?st']) (use h a b c in simp)
qed

text \<open>
  C9, witness: alice deletes message 3, to which nothing replies; messages 1 and 2 stay.
\<close>

theorem delete_message_removes_reply_thread_witness:
  "verify_auth_token ex_store (dj_token (ex_delete 3)) = Some \<lparr>user_id = 1, username = ''alice''\<rparr>
   \<and> permission_check_emit ex_store 1 42
   \<and> available ex_store
   \<and> find (\<lambda>m. msg_id m = 3) (messages ex_store) = Some (ex_messages ! 2)
   \<and> map_sum id (\<lambda>(st', es). (map msg_id (messages st'), map em_event es))
        (handle_message_delete ChatManager_delete_message ex_store (ex_delete 3))
       = Inr ([1, 2], [''delete-message-client''])"
proof -
  have v: "verify_auth_token ex_store (dj_token (ex_delete 3))
           = Some \<lparr>user_id = 1, username = ''alice''\<rparr>"
    by (simp add: ex_delete_def ex_verify)
  have p: "permission_check_emit ex_store (user_id \<lparr>user_id = 1, username = ''alice''\<rparr>)
             (dj_op_id (ex_delete 3))"
    by (simp add: ex_delete_def ex_perm)
  have a: "available ex_store" by (simp add: ex_store_def)
  have f: "find (\<lambda>m. msg_id m = dj_message_id (ex_delete 3)) (messages ex_store)
           = Some (ex_messages ! 2)"
    by (simp add: ex_delete_def ex_store_def ex_messages_def)
  have n: "\<forall>x \<in> set (messages ex_store). msg_reply_id x \<noteq> Some (dj_message_id (ex_delete 3))"
    by (simp add: ex_delete_def ex_store_def ex_messages_def)
  from delete_message_removes_reply_thread[OF v p a f] n
  obtain st' where h: "handle_message_delete ChatManager_delete_message ex_store (ex_delete 3) =
             Inr (st', [socketio_emit ''delete-message-client''
                          [(''message_id'', JInt (dj_message_id (ex_delete 3)))]])"
    and ms: "messages st' = filter (\<lambda>x. msg_id x \<noteq> dj_message_id (ex_delete 3)) (messages ex_store)"
    by blast
  have ids: "map msg_id (messages st') = [1, 2]"
    by (simp add: ms ex_delete_def ex_store_def ex_messages_def)
  show ?thesis using v a f
    by (simp add: h ids ex_perm socketio_emit_def) (simp add: ex_delete_def)
qed

section \<open>Selecting the current operation again\<close>

text \<open>
  C10: in every state reached from the initial one, when a verified user who is in the
  presence set of an operation selects that operation again, the presence dict maps every
  operation to the same set as before, the user is in the set of that operation only,
  and two updates for the operation are emitted: the count without the user, then the
  count with the user.
\<close>

theorem reselecting_current_operation_keeps_presence:
  assumes "verify_auth_token st (sel_token j) = Some user"
    and "map_of (active_users_per_operation (run evs init_sm)) (sel_op_id j) = Some us"
    and "user_id user \<in> us"
  shows "map_of (active_users_per_operation
                   (fst (handle_operation_selected st j (run evs init_sm))))
           = map_of (active_users_per_operation (run evs init_sm))
         \<and> active_ops (user_id user)
             (active_users_per_operation (fst (handle_operation_selected st j (run evs init_sm))))
           = [sel_op_id j]
         \<and> snd (handle_operation_selected st j (run evs init_sm))
           = [active_user_update (sel_op_id j) (card (us - {user_id user})),
              active_user_update (sel_op_id j) (card us)]"
proof -
  have inv: "presence_inv (active_users_per_operation (run evs init_sm))"
    by (rule presence_inv_reached)
  then have dd: "distinct (map fst (active_users_per_operation (run evs init_sm)))"
    by (simp add: presence_inv_def)
  show ?thesis
    using reselect_map_of[OF inv assms] reselect_emissions[OF inv assms]
      selected_active_ops[OF dd assms(1), of "user_id user"]
    by simp
qed

text \<open>
  C10, witness: alice and bob are active in operation 42 and alice selects it again.
\<close>

theorem reselecting_current_operation_keeps_presence_witness:
  "verify_auth_token ex_store ''tokenA'' = Some \<lparr>user_id = 1, username = ''alice''\<rparr>
   \<and> map_of (active_users_per_operation
        (run [(ex_store, OperationSelected \<lparr>sel_token = ''tokenA'', sel_op_id = 42\<rparr>),
              (ex_store, OperationSelected \<lparr>sel_token = ''tokenB'', sel_op_id = 42\<rparr>)]
           init_sm)) 42 = Some {1, 2}
   \<and> (1::int) \<in> {1, 2}
   \<and> active_users_per_operation
        (fst (handle_operation_selected ex_store \<lparr>sel_token = ''tokenA'', sel_op_id = 42\<rparr>
           (run [(ex_store, OperationSelected \<lparr>sel_token = ''tokenA'', sel_op_id = 42\<rparr>),
                 (ex_store, OperationSelected \<lparr>sel_token = ''tokenB'', sel_op_id = 42\<rparr>)]
              init_sm)))
       = [(42, {1, 2})]
   \<and> snd (handle_operation_selected ex_store \<lparr>sel_token = ''tokenA'', sel_op_id = 42\<rparr>
           (run [(ex_store, OperationSelected \<lparr>sel_token = ''tokenA'', sel_op_id = 42\<rparr>),
                 (ex_store, OperationSelected \<lparr>sel_token = ''tokenB'', sel_op_id = 42\<rparr>)]
              init_sm))
       = [active_user_update 42 1, active_user_update 42 2]"
proof -
  have v: "verify_auth_token ex_store (sel_token \<lparr>sel_token = ''tokenA'', sel_op_id = 42\<rparr>)
           = Some \<lparr>user_id = 1, username = ''alice''\<rparr>"
    by (simp add: ex_verify)
  have c: "map_of (active_users_per_operation
        (run [(ex_store, OperationSelected \<lparr>sel_token = ''tokenA'', sel_op_id = 42\<rparr>),
              (ex_store, OperationSelected \<lparr>sel_token = ''tokenB'', sel_op_id = 42\<rparr>)]
           init_sm)) (sel_op_id \<lparr>sel_token = ''tokenA'', sel_op_id = 42\<rparr>) = Some {1, 2}"
    by (simp del: run.simps add: ex_run_eval)
  have m: "user_id \<lparr>user_id = 1, username = ''alice''\<rparr> \<in> {1, 2}" by simp
  have e: "active_users_per_operation
        (fst (handle_operation_selected ex_store \<lparr>sel_token = ''tokenA'', sel_op_id = 42\<rparr>
           \<lparr>sockets = [], active_users_per_operation = [(42, {1, 2})], rooms = {}\<rparr>))
       = [(42, {1, 2})]"
    by (simp add: handle_operation_selected_def ex_verify update_active_users_def
      dict_store_def dict_get_def insert_commute)
  have d: "{1, 2} - {1::int} = {2}" by auto
  show ?thesis
    using reselecting_current_operation_keeps_presence[OF v c m] e
    by (simp del: run.simps add: ex_verify ex_run_eval d numeral_2_eq_2)
qed

end
